theory Spec2Isabelle
  imports Complex_Main "HOL-Library.Word"
begin

section \<open>Segmentation-tracking evaluation (scalabel/eval/mots.py)\<close>

text \<open>
  A shallow embedding of \<^verbatim>\<open>parse_objects\<close>, \<^verbatim>\<open>acc_single_video_mots\<close> and the
  accumulation stage of \<^verbatim>\<open>evaluate_seg_track\<close>.

  Numbers: overlaps, distances and thresholds are doubles. A double is modelled by the
  real number it denotes, and NaN (the only non-finite value the code produces) by
  \<open>None\<close>. Comparisons of doubles are exact; the one arithmetic operation of the module,
  the subtraction \<^verbatim>\<open>1 - x\<close>, rounds its result, and is written \<open>fsub\<close>. The ids that
  numpy stores in an array of 32-bit integers are words of 32 bits.

  Exceptions are values of type \<open>error\<close>: \<^verbatim>\<open>assert\<close> raises AssertionError (with its
  message, when it has one), \<^verbatim>\<open>raise KeyError(...)\<close> raises KeyError, indexing a numpy
  array out of range raises IndexError, and the conversion of an id to a 32-bit integer
  raises ValueError for an id that is no number and OverflowError for one that is too
  large.
\<close>

subsection \<open>Errors\<close>

datatype error =
  AssertionError "string option" | KeyError string | IndexError | ValueError | OverflowError

text \<open>The names the specification gives to the three failures of the code.\<close>

definition ShapeMismatchError :: error where
  "ShapeMismatchError = AssertionError None"

definition ConfigError :: error where
  "ConfigError = AssertionError (Some ''Requires ImageSize for Poly2D conversion to RLE'')"

definition UnknownCategoryError :: "string \<Rightarrow> error" where
  "UnknownCategoryError category = KeyError (''Unknown category: '' @ category)"

subsection \<open>Data\<close>

text \<open>
  A label carries its id as the input gives it (\<open>'i\<close>, a string in Scalabel), its
  category, its attributes (\<open>'a\<close>, where the crowd and ignore flags live), an optional
  native mask (\<open>'m\<close>, an RLE) and an optional polygon outline (\<open>'p\<close>). A frame carries an
  optional frame index and an optional list of labels.
\<close>

record ('m, 'p, 'a, 'i) label =
  label_id :: 'i
  category :: string
  attributes :: 'a
  rle :: "'m option"
  poly2d :: "'p option"

record ('m, 'p, 'a, 'i) frame =
  frameIndex :: "int option"
  labels :: "('m, 'p, 'a, 'i) label list option"

text \<open>A numpy matrix: its shape and its rows. A matrix may have columns and no row.\<close>

record 'a matrix =
  nrows :: nat
  ncols :: nat
  ents :: "'a list list"

text \<open>
  The accumulator of one class (motmetrics' MOTAccumulator with \<^verbatim>\<open>auto_id=True\<close>) is
  modelled by the sequence of the calls of \<^verbatim>\<open>update\<close> it has received: ground-truth ids,
  prediction ids and the distance matrix of each call.
\<close>

type_synonym acc = "(int list \<times> int list \<times> real option matrix) list"

text \<open>
  What the module imports and this repository's sources do not hold is a parameter:
  the crowd and ignore tests of a label, the rasterisation of a polygon on a canvas
  (\<^verbatim>\<open>mask_to_rle(poly2ds_to_mask(image_size, poly2d))\<close>), the overlap of two masks
  (pycocotools' \<^verbatim>\<open>iou\<close> for one detection, one ground truth and its crowd flag: with the
  flag set it is the intersection over the detection's area), the assignment solver
  (\<^verbatim>\<open>mm.lap.linear_sum_assignment\<close>, returning row and column indices), the renaming of
  label ids done by \<^verbatim>\<open>label_ids_to_int\<close> on a list of frames, and the conversion of one id
  by \<^verbatim>\<open>np.array(ids, dtype=np.int32)\<close>, which gives a 32-bit integer, or finds that the
  id is no number, or that it is too large to convert.

  The subtraction of two doubles is a parameter as well: \<open>fsub a b\<close> is the double that
  \<^verbatim>\<open>a - b\<close> gives. What is proved holds for every rounding; \<open>double_sub\<close> below is the
  subtraction of IEEE 754.
\<close>

datatype int32_result = Int32 "32 word" | NotANumber | OutOfRange

record ('m, 'p, 'a, 'i, 's) ext =
  check_crowd :: "('m, 'p, 'a, 'i) label \<Rightarrow> bool"
  check_ignored :: "('m, 'p, 'a, 'i) label \<Rightarrow> bool"
  poly2ds_to_rle :: "'s \<Rightarrow> 'p \<Rightarrow> 'm"
  iou1 :: "'m \<Rightarrow> 'm \<Rightarrow> bool \<Rightarrow> real"
  linear_sum_assignment :: "real option matrix \<Rightarrow> nat list \<times> nat list"
  ids_to_int :: "('m, 'p, 'a, 'i) frame list \<Rightarrow> 'i \<Rightarrow> 'i"
  int32_of_id :: "'i \<Rightarrow> int32_result"
  fsub :: "real \<Rightarrow> real \<Rightarrow> real"

subsection \<open>List and matrix helpers of Python and numpy\<close>

text \<open>\<^verbatim>\<open>xs.index(y)\<close>, called only where \<^verbatim>\<open>y in xs\<close> holds.\<close>

fun list_index :: "'a list \<Rightarrow> 'a \<Rightarrow> nat" where
  "list_index [] y = 0"
| "list_index (x # xs) y = (if x = y then 0 else Suc (list_index xs y))"

text \<open>Indexing by a boolean mask of the same length: \<^verbatim>\<open>xs[mask]\<close>.\<close>

definition select :: "'a list \<Rightarrow> bool list \<Rightarrow> 'a list" where
  "select xs keep = map fst (filter snd (zip xs keep))"

definition select_cols :: "'a matrix \<Rightarrow> bool list \<Rightarrow> 'a matrix" where
  "select_cols d keep =
     \<lparr>nrows = nrows d, ncols = length (filter id keep),
      ents = map (\<lambda>row. select row keep) (ents d)\<rparr>"

definition full :: "nat \<Rightarrow> nat \<Rightarrow> 'a \<Rightarrow> 'a matrix" where
  "full r c v = \<lparr>nrows = r, ncols = c, ents = replicate r (replicate c v)\<rparr>"

definition shape :: "'a matrix \<Rightarrow> nat \<times> nat" where
  "shape d = (nrows d, ncols d)"

definition transpose_m :: "'a matrix \<Rightarrow> 'a matrix" where
  "transpose_m d =
     \<lparr>nrows = ncols d, ncols = nrows d,
      ents = map (\<lambda>j. map (\<lambda>row. row ! j) (ents d)) [0..<ncols d]\<rparr>"

definition map_matrix :: "('a \<Rightarrow> 'b) \<Rightarrow> 'a matrix \<Rightarrow> 'b matrix" where
  "map_matrix f d = \<lparr>nrows = nrows d, ncols = ncols d, ents = map (map f) (ents d)\<rparr>"

text \<open>
  pycocotools' \<^verbatim>\<open>iou(dt, gt, iscrowd)\<close>: one row per detection, one column per ground
  truth. The code calls it with both lists non-empty only.
\<close>

definition iou :: "('m, 'p, 'a, 'i, 's) ext \<Rightarrow> 'm list \<Rightarrow> 'm list \<Rightarrow> bool list \<Rightarrow> real matrix" where
  "iou X dt gt iscrowd =
     \<lparr>nrows = length dt, ncols = length gt,
      ents = map (\<lambda>d. map (\<lambda>(g, c). iou1 X d g c) (zip gt iscrowd)) dt\<rparr>"

subsection \<open>The arithmetic of doubles\<close>

text \<open>
  IEEE 754, binary64, rounding to nearest with ties to even. The doubles of magnitude in
  \<open>[2^k, 2^(k+1))\<close> are the multiples of \<open>2^(k-52)\<close> for \<open>k\<close> from -1022 to 1023, and those
  below \<open>2^(-1022)\<close> are the multiples of \<open>2^(-1074)\<close>: \<open>ulp a\<close> is the spacing of the
  doubles around \<open>a\<close>, found by a search over the exponents. A real is rounded to the
  nearest multiple of its spacing, and to the even one of the two when it lies half way.
  Overflow to infinity (from \<open>2^1024\<close> on) is not modelled: \<^verbatim>\<open>1 - x\<close> never overflows.
\<close>

definition round_half_even :: "real \<Rightarrow> int" where
  "round_half_even r =
     (let f = \<lfloor>r\<rfloor>; d = r - of_int f
      in if d < 1 / 2 then f else if 1 / 2 < d then f + 1 else if even f then f else f + 1)"

fun ulp_from :: "nat \<Rightarrow> int \<Rightarrow> real \<Rightarrow> int" where
  "ulp_from 0 e a = e"
| "ulp_from (Suc n) e a = (if a < 2 powi (e + 53) then e else ulp_from n (e + 1) a)"

definition ulp :: "real \<Rightarrow> real" where
  "ulp a = 2 powi (ulp_from 2045 (- 1074) \<bar>a\<bar>)"

definition round_magnitude :: "real \<Rightarrow> real" where
  "round_magnitude a = of_int (round_half_even (a / ulp a)) * ulp a"

definition double_round :: "real \<Rightarrow> real" where
  "double_round x = (if x < 0 then - round_magnitude (- x) else round_magnitude x)"

definition double_sub :: "real \<Rightarrow> real \<Rightarrow> real" where
  "double_sub a b = double_round (a - b)"

text \<open>The division of pycocotools, \<^verbatim>\<open>(double) i / (double) u\<close>.\<close>

definition double_div :: "real \<Rightarrow> real \<Rightarrow> real" where
  "double_div a b = double_round (a / b)"

subsection \<open>parse_objects\<close>

text \<open>
  The four lists the loop builds (masks, class indices, ids, ignore regions), and the value
  returned, where the ids are an array of 32-bit integers.
\<close>

type_synonym ('m, 'i) parsing = "'m list \<times> nat list \<times> 'i list \<times> 'm list"

type_synonym 'm parsed = "'m list \<times> nat list \<times> int list \<times> 'm list"

text \<open>Lines 52-60: the mask of an object; \<open>Inr None\<close> is the \<^verbatim>\<open>continue\<close>.\<close>

definition resolve_rle ::
  "('m, 'p, 'a, 'i, 's) ext \<Rightarrow> 's option \<Rightarrow> ('m, 'p, 'a, 'i) label \<Rightarrow> error + 'm option" where
  "resolve_rle X image_size obj =
     (case rle obj of
        Some r \<Rightarrow> Inr (Some r)
      | None \<Rightarrow>
          (case poly2d obj of
             Some p \<Rightarrow>
               (case image_size of
                  None \<Rightarrow> Inl ConfigError
                | Some sz \<Rightarrow> Inr (Some (poly2ds_to_rle X sz p)))
           | None \<Rightarrow> Inr None))"

text \<open>Lines 52-71: the body of the loop, on the four lists built so far.\<close>

definition parse_object ::
  "('m, 'p, 'a, 'i, 's) ext \<Rightarrow> string list \<Rightarrow> bool \<Rightarrow> 's option \<Rightarrow> ('m, 'i) parsing
   \<Rightarrow> ('m, 'p, 'a, 'i) label \<Rightarrow> error + ('m, 'i) parsing" where
  "parse_object X classes ignore_unknown_cats image_size st obj =
     (case st of (rles, labs, ids, ignore_rles) \<Rightarrow>
        (case resolve_rle X image_size obj of
           Inl e \<Rightarrow> Inl e
         | Inr None \<Rightarrow> Inr st
         | Inr (Some r) \<Rightarrow>
             if category obj \<in> set classes then
               if check_crowd X obj \<or> check_ignored X obj then
                 Inr (rles, labs, ids, ignore_rles @ [r])
               else
                 Inr (rles @ [r], labs @ [list_index classes (category obj)],
                      ids @ [label_id obj], ignore_rles)
             else if \<not> ignore_unknown_cats then Inl (UnknownCategoryError (category obj))
             else Inr st))"

fun parse_loop ::
  "('m, 'p, 'a, 'i, 's) ext \<Rightarrow> string list \<Rightarrow> bool \<Rightarrow> 's option \<Rightarrow> ('m, 'i) parsing
   \<Rightarrow> ('m, 'p, 'a, 'i) label list \<Rightarrow> error + ('m, 'i) parsing" where
  "parse_loop X classes iuc image_size st [] = Inr st"
| "parse_loop X classes iuc image_size st (obj # objects) =
     (case parse_object X classes iuc image_size st obj of
        Inl e \<Rightarrow> Inl e
      | Inr st' \<Rightarrow> parse_loop X classes iuc image_size st' objects)"

text \<open>
  Lines 72-74: the arrays returned. \<^verbatim>\<open>np.array(ids, dtype=np.int32)\<close> converts every id,
  and raises ValueError or OverflowError when an id cannot be converted. The class indices
  are below the number of classes and are kept as they are.
\<close>

fun int32_array :: "('m, 'p, 'a, 'i, 's) ext \<Rightarrow> 'i list \<Rightarrow> error + int list" where
  "int32_array X [] = Inr []"
| "int32_array X (i # ids) =
     (case int32_of_id X i of
        NotANumber \<Rightarrow> Inl ValueError
      | OutOfRange \<Rightarrow> Inl OverflowError
      | Int32 w \<Rightarrow>
          (case int32_array X ids of Inl e \<Rightarrow> Inl e | Inr ws \<Rightarrow> Inr (sint w # ws)))"

definition to_arrays :: "('m, 'p, 'a, 'i, 's) ext \<Rightarrow> ('m, 'i) parsing \<Rightarrow> error + 'm parsed" where
  "to_arrays X st =
     (case st of (rles, labs, ids, ignore_rles) \<Rightarrow>
        (case int32_array X ids of
           Inl e \<Rightarrow> Inl e
         | Inr ids_arr \<Rightarrow> Inr (rles, labs, ids_arr, ignore_rles)))"

definition parse_objects ::
  "('m, 'p, 'a, 'i, 's) ext \<Rightarrow> ('m, 'p, 'a, 'i) label list \<Rightarrow> string list \<Rightarrow> bool \<Rightarrow> 's option
   \<Rightarrow> error + 'm parsed" where
  "parse_objects X objects classes ignore_unknown_cats image_size =
     (case parse_loop X classes ignore_unknown_cats image_size ([], [], [], []) objects of
        Inl e \<Rightarrow> Inl e
      | Inr st \<Rightarrow> to_arrays X st)"

subsection \<open>acc_single_video_mots\<close>

definition get_frame_index :: "('m, 'p, 'a, 'i) frame \<Rightarrow> int" where
  "get_frame_index fr = (case frameIndex fr of Some i \<Rightarrow> i | None \<Rightarrow> 0)"

text \<open>
  \<^verbatim>\<open>label_ids_to_int(gts)\<close>, of the module \<^verbatim>\<open>mot\<close>: it asserts that the list of frames
  is not empty (\<^verbatim>\<open>assert len(frames) > 0\<close>, without message), and rewrites the ids of the
  labels of the frames in place; the renaming itself is the parameter \<open>ids_to_int\<close>.
\<close>

definition label_ids_to_int ::
  "('m, 'p, 'a, 'i, 's) ext \<Rightarrow> ('m, 'p, 'a, 'i) frame list
   \<Rightarrow> error + ('m, 'p, 'a, 'i) frame list" where
  "label_ids_to_int X frames =
     (if length frames > 0 then
        Inr (map (\<lambda>fr. fr\<lparr>labels :=
                    map_option (map (\<lambda>l. l\<lparr>label_id := ids_to_int X frames (label_id l)\<rparr>))
                      (labels fr)\<rparr>)
               frames)
      else Inl (AssertionError None))"

text \<open>Lines 126-139: the distance matrix of one class in one frame.\<close>

definition cost_matrix ::
  "('m, 'p, 'a, 'i, 's) ext \<Rightarrow> real \<Rightarrow> 'm list \<Rightarrow> 'm list \<Rightarrow> real option matrix" where
  "cost_matrix X iou_thr gt_rles_c pred_rles_c =
     (if length gt_rles_c = 0 \<and> length pred_rles_c \<noteq> 0 then
        full 0 (length pred_rles_c) None
      else if length gt_rles_c \<noteq> 0 \<and> length pred_rles_c = 0 then
        full (length gt_rles_c) 0 None
      else
        let ious_c = transpose_m
                       (iou X pred_rles_c gt_rles_c (replicate (length gt_rles_c) False));
            distances = map_matrix (\<lambda>v. fsub X 1 v) ious_c
        in map_matrix (\<lambda>d. if d > fsub X 1 iou_thr then None else Some d) distances)"

text \<open>Lines 144-146: a prediction assigned at a finite distance is no false positive.\<close>

fun mark_matched ::
  "real option matrix \<Rightarrow> bool list \<Rightarrow> (nat \<times> nat) list \<Rightarrow> error + bool list" where
  "mark_matched distances fps [] = Inr fps"
| "mark_matched distances fps ((m, n) # rest) =
     (if m < nrows distances \<and> n < ncols distances then
        mark_matched distances
          (if ents distances ! m ! n \<noteq> None then fps[n := False] else fps) rest
      else Inl IndexError)"

text \<open>Lines 141-157: the filter of the predictions that fall on ignored regions.\<close>

definition ignore_filter ::
  "('m, 'p, 'a, 'i, 's) ext \<Rightarrow> real \<Rightarrow> 'm list \<Rightarrow> int list \<Rightarrow> real option matrix \<Rightarrow> 'm list
   \<Rightarrow> error + int list \<times> real option matrix" where
  "ignore_filter X ignore_iof_thr pred_rles_c pred_ids_c distances gt_ignores =
     (let fps0 = replicate (length pred_rles_c) True;
          (le, ri) = linear_sum_assignment X distances
      in case mark_matched distances fps0 (zip le ri) of
           Inl e \<Rightarrow> Inl e
         | Inr fps \<Rightarrow>
             let iofs = iou X pred_rles_c gt_ignores (replicate (length gt_ignores) True);
                 ignores = map (list_ex (\<lambda>v. v > ignore_iof_thr)) (ents iofs);
                 valid_inds = map (\<lambda>(f, g). \<not> (f \<and> g)) (zip fps ignores)
             in Inr (select pred_ids_c valid_inds, select_cols distances valid_inds))"

text \<open>
  Lines 114-157, for class \<open>i\<close>: the ids of its ground truths, the ids of its predictions
  that survive the filter and the distance matrix between them; \<open>Inr None\<close> is the
  \<^verbatim>\<open>continue\<close> of a class with no ground truth and no prediction in the frame.
\<close>

definition class_match ::
  "('m, 'p, 'a, 'i, 's) ext \<Rightarrow> real \<Rightarrow> real \<Rightarrow> 'm parsed \<Rightarrow> 'm parsed \<Rightarrow> nat
   \<Rightarrow> error + (int list \<times> int list \<times> real option matrix) option" where
  "class_match X iou_thr ignore_iof_thr gt pred i =
     (case gt of (gt_rles, gt_labels, gt_ids, gt_ignores) \<Rightarrow>
      case pred of (pred_rles, pred_labels, pred_ids, unused) \<Rightarrow>
        let gt_inds = map (\<lambda>l. l = i) gt_labels;
            pred_inds = map (\<lambda>l. l = i) pred_labels;
            gt_rles_c = select gt_rles gt_inds;
            pred_rles_c = select pred_rles pred_inds;
            gt_ids_c = select gt_ids gt_inds;
            pred_ids_c = select pred_ids pred_inds
        in if length gt_rles_c = 0 \<and> length pred_rles_c = 0 then Inr None
           else
             let distances = cost_matrix X iou_thr gt_rles_c pred_rles_c
             in if length gt_ignores > 0 \<and> length pred_rles_c > 0 then
                  (case ignore_filter X ignore_iof_thr pred_rles_c pred_ids_c distances
                          gt_ignores of
                     Inl e \<Rightarrow> Inl e
                   | Inr (pred_ids_c', distances') \<Rightarrow>
                       Inr (Some (gt_ids_c, pred_ids_c', distances')))
                else Inr (Some (gt_ids_c, pred_ids_c, distances)))"

text \<open>Lines 113-159: the body of the loop over the classes, with the call of update.\<close>

definition acc_class ::
  "('m, 'p, 'a, 'i, 's) ext \<Rightarrow> real \<Rightarrow> real \<Rightarrow> 'm parsed \<Rightarrow> 'm parsed \<Rightarrow> acc list \<Rightarrow> nat
   \<Rightarrow> error + acc list" where
  "acc_class X iou_thr ignore_iof_thr gt pred accs i =
     (case class_match X iou_thr ignore_iof_thr gt pred i of
        Inl e \<Rightarrow> Inl e
      | Inr None \<Rightarrow> Inr accs
      | Inr (Some (gt_ids_c, pred_ids_c, distances)) \<Rightarrow>
          if shape distances \<noteq> (0, 0) then
            Inr (accs[i := accs ! i @ [(gt_ids_c, pred_ids_c, distances)]])
          else Inr accs)"

fun acc_classes ::
  "('m, 'p, 'a, 'i, 's) ext \<Rightarrow> real \<Rightarrow> real \<Rightarrow> 'm parsed \<Rightarrow> 'm parsed \<Rightarrow> acc list \<Rightarrow> nat list
   \<Rightarrow> error + acc list" where
  "acc_classes X iou_thr iof_thr gt pred accs [] = Inr accs"
| "acc_classes X iou_thr iof_thr gt pred accs (i # is) =
     (case acc_class X iou_thr iof_thr gt pred accs i of
        Inl e \<Rightarrow> Inl e
      | Inr accs' \<Rightarrow> acc_classes X iou_thr iof_thr gt pred accs' is)"

text \<open>Lines 100-159: the body of the loop over the paired frames.\<close>

definition acc_frame ::
  "('m, 'p, 'a, 'i, 's) ext \<Rightarrow> string list \<Rightarrow> real \<Rightarrow> real \<Rightarrow> bool \<Rightarrow> 's option \<Rightarrow> acc list
   \<Rightarrow> ('m, 'p, 'a, 'i) frame \<times> ('m, 'p, 'a, 'i) frame \<Rightarrow> error + acc list" where
  "acc_frame X classes iou_thr ignore_iof_thr ignore_unknown_cats image_size accs p =
     (case p of (gt, result) \<Rightarrow>
        if frameIndex gt \<noteq> frameIndex result then Inl ShapeMismatchError
        else
          (case parse_objects X (case labels gt of Some ls \<Rightarrow> ls | None \<Rightarrow> [])
                  classes ignore_unknown_cats image_size of
             Inl e \<Rightarrow> Inl e
           | Inr gt_parsed \<Rightarrow>
               (case parse_objects X (case labels result of Some ls \<Rightarrow> ls | None \<Rightarrow> [])
                       classes ignore_unknown_cats image_size of
                  Inl e \<Rightarrow> Inl e
                | Inr pred_parsed \<Rightarrow>
                    acc_classes X iou_thr ignore_iof_thr gt_parsed pred_parsed accs
                      [0..<length classes])))"

fun acc_frames ::
  "('m, 'p, 'a, 'i, 's) ext \<Rightarrow> string list \<Rightarrow> real \<Rightarrow> real \<Rightarrow> bool \<Rightarrow> 's option \<Rightarrow> acc list
   \<Rightarrow> (('m, 'p, 'a, 'i) frame \<times> ('m, 'p, 'a, 'i) frame) list \<Rightarrow> error + acc list" where
  "acc_frames X classes iou_thr iof_thr iuc image_size accs [] = Inr accs"
| "acc_frames X classes iou_thr iof_thr iuc image_size accs (p # ps) =
     (case acc_frame X classes iou_thr iof_thr iuc image_size accs p of
        Inl e \<Rightarrow> Inl e
      | Inr accs' \<Rightarrow> acc_frames X classes iou_thr iof_thr iuc image_size accs' ps)"

text \<open>
  The function itself. Its \<^verbatim>\<open>iou_thr\<close> has the default 0.5: \<open>None\<close> is a call that
  does not pass it.
\<close>

definition acc_single_video_mots ::
  "('m, 'p, 'a, 'i, 's) ext \<Rightarrow> ('m, 'p, 'a, 'i) frame list \<Rightarrow> ('m, 'p, 'a, 'i) frame list \<Rightarrow> string list
   \<Rightarrow> real option \<Rightarrow> real \<Rightarrow> bool \<Rightarrow> 's option \<Rightarrow> error + acc list" where
  "acc_single_video_mots X gts results classes iou_thr_arg ignore_iof_thr
       ignore_unknown_cats image_size =
     (let iou_thr = (case iou_thr_arg of Some t \<Rightarrow> t | None \<Rightarrow> 1 / 2)
      in if length gts \<noteq> length results then Inl ShapeMismatchError
         else
           let num_classes = length classes;
               gts1 = sort_key get_frame_index gts;
               results1 = sort_key get_frame_index results;
               accs = replicate num_classes []
           in case label_ids_to_int X gts1 of
                Inl e \<Rightarrow> Inl e
              | Inr gts2 \<Rightarrow>
                  acc_frames X classes iou_thr ignore_iof_thr ignore_unknown_cats image_size
                    accs (zip gts2 results1))"

subsection \<open>evaluate_seg_track\<close>

text \<open>
  The configuration, as far as this module reads it: the names of the leaf categories
  (\<^verbatim>\<open>[c.name for c in get_leaf_categories(config.categories)]\<close>) and the image size.
\<close>

record 's config =
  class_names :: "string list"
  imageSize :: "'s option"

text \<open>
  A list of results computed one after the other (a list comprehension): the first
  exception is the outcome.
\<close>

fun collect :: "(error + 'a) list \<Rightarrow> error + 'a list" where
  "collect [] = Inr []"
| "collect (r # rs) =
     (case r of
        Inl e \<Rightarrow> Inl e
      | Inr v \<Rightarrow> (case collect rs of Inl e \<Rightarrow> Inl e | Inr vs \<Rightarrow> Inr (v # vs)))"

text \<open>
  The pool's \<^verbatim>\<open>starmap\<close>: every task runs. When all succeed the results come in the
  order of the tasks; otherwise the exception raised is the first one that reaches the
  pool, whichever task raised it. Which one that is depends on the scheduling: the
  parameter \<open>first_to_arrive\<close> chooses among the exceptions of the tasks.
\<close>

definition starmap :: "(error list \<Rightarrow> nat) \<Rightarrow> (error + 'a) list \<Rightarrow> error + 'a list" where
  "starmap first_to_arrive rs =
     (let es = [e. Inl e \<leftarrow> rs]
      in if es = [] then Inr [v. Inr v \<leftarrow> rs]
         else Inl (es ! (first_to_arrive es mod length es)))"

text \<open>
  Lines 191-223: the accumulators of every video. The function applied to every video is
  an argument; the pool's branch does not pass \<^verbatim>\<open>iou_thr\<close> to it.
\<close>

definition video_accs ::
  "(error list \<Rightarrow> nat)
   \<Rightarrow> (('m, 'p, 'a, 'i) frame list \<Rightarrow> ('m, 'p, 'a, 'i) frame list \<Rightarrow> string list \<Rightarrow> real option \<Rightarrow> real \<Rightarrow> bool
      \<Rightarrow> 's option \<Rightarrow> error + acc list)
   \<Rightarrow> ('m, 'p, 'a, 'i) frame list list \<Rightarrow> ('m, 'p, 'a, 'i) frame list list \<Rightarrow> 's config
   \<Rightarrow> real \<Rightarrow> real \<Rightarrow> bool \<Rightarrow> nat \<Rightarrow> error + acc list list" where
  "video_accs first_to_arrive acc_single_video gts results config iou_thr ignore_iof_thr
       ignore_unknown_cats nproc =
     (if length gts \<noteq> length results then Inl ShapeMismatchError
      else
        if nproc > 1 then
          starmap first_to_arrive (map (\<lambda>(gt, result).
                     acc_single_video gt result (class_names config) None ignore_iof_thr
                       ignore_unknown_cats (imageSize config))
                   (zip gts results))
        else
          collect (map (\<lambda>(gt, result).
                     acc_single_video gt result (class_names config) (Some iou_thr)
                       ignore_iof_thr ignore_unknown_cats (imageSize config))
                   (zip gts results)))"

text \<open>
  Lines 225-247: the metrics are computed from the accumulators by functions of the
  module \<^verbatim>\<open>mot\<close> (\<^verbatim>\<open>aggregate_accs\<close>, \<^verbatim>\<open>evaluate_single_class\<close>,
  \<^verbatim>\<open>generate_results\<close>), the same way for every worker count: the parameter \<open>render\<close>.
\<close>

definition evaluate_seg_track ::
  "(acc list list \<Rightarrow> 'r) \<Rightarrow> (error list \<Rightarrow> nat)
   \<Rightarrow> (('m, 'p, 'a, 'i) frame list \<Rightarrow> ('m, 'p, 'a, 'i) frame list \<Rightarrow> string list \<Rightarrow> real option \<Rightarrow> real \<Rightarrow> bool
      \<Rightarrow> 's option \<Rightarrow> error + acc list)
   \<Rightarrow> ('m, 'p, 'a, 'i) frame list list \<Rightarrow> ('m, 'p, 'a, 'i) frame list list \<Rightarrow> 's config
   \<Rightarrow> real \<Rightarrow> real \<Rightarrow> bool \<Rightarrow> nat \<Rightarrow> error + 'r" where
  "evaluate_seg_track render first_to_arrive acc_single_video gts results config iou_thr
       ignore_iof_thr ignore_unknown_cats nproc =
     (case video_accs first_to_arrive acc_single_video gts results config iou_thr
             ignore_iof_thr ignore_unknown_cats nproc of
        Inl e \<Rightarrow> Inl e
      | Inr accs \<Rightarrow> Inr (render accs))"

subsection \<open>The rule of the ignore filter, as the specification words it\<close>

text \<open>
  Prediction \<open>n\<close> of the class is kept when the assignment \<open>(le, ri)\<close> matches it at a
  finite distance, or when no ignored region covers more than \<open>ignore_iof_thr\<close> of it.
\<close>

definition keeps_prediction ::
  "('m, 'p, 'a, 'i, 's) ext \<Rightarrow> real \<Rightarrow> 'm list \<Rightarrow> 'm list \<Rightarrow> real option matrix
   \<Rightarrow> nat list \<Rightarrow> nat list \<Rightarrow> nat \<Rightarrow> bool" where
  "keeps_prediction X ignore_iof_thr preds ignores d le ri n \<longleftrightarrow>
     (\<exists>(m, n') \<in> set (zip le ri). n' = n \<and> ents d ! m ! n \<noteq> None) \<or>
     \<not> (\<exists>g \<in> set ignores. iou1 X (preds ! n) g True > ignore_iof_thr)"

subsection \<open>An instance of the parameters, for concrete runs\<close>

text \<open>
  Masks are lists of distinct pixel numbers, a polygon is the list of the pixels it covers
  and the canvas of size \<open>sz\<close> holds the pixels below \<open>sz\<close>; the attributes of a label are
  its crowd and ignore flags; the overlap is the intersection over the union, or over the
  detection when the crowd flag is set; an id is the integer it denotes, and its conversion
  keeps the 32 low bits. The arithmetic is exact in \<open>example_ext\<close>. The answer of the
  assignment solver on the matrices of a run is given with the run.
\<close>

definition pixel_iou :: "nat list \<Rightarrow> nat list \<Rightarrow> bool \<Rightarrow> real" where
  "pixel_iou d g crowd =
     (let i = length (filter (\<lambda>x. x \<in> set g) d)
      in if crowd then real i / real (length d)
         else real i / real (length d + length g - i))"

definition example_ext ::
  "(real option matrix \<Rightarrow> nat list \<times> nat list)
   \<Rightarrow> (nat list, nat list, bool \<times> bool, int, nat) ext" where
  "example_ext solver =
     \<lparr>check_crowd = (\<lambda>l. fst (attributes l)),
      check_ignored = (\<lambda>l. snd (attributes l)),
      poly2ds_to_rle = (\<lambda>sz p. filter (\<lambda>x. x < sz) p),
      iou1 = pixel_iou,
      linear_sum_assignment = solver,
      ids_to_int = (\<lambda>frames i. i),
      int32_of_id = (\<lambda>i. Int32 (word_of_int i)),
      fsub = (\<lambda>a b. a - b)\<rparr>"

text \<open>
  The same instance in doubles: the overlap is the quotient that the division of doubles
  gives, and the subtraction is the one of doubles.
\<close>

definition double_pixel_iou :: "nat list \<Rightarrow> nat list \<Rightarrow> bool \<Rightarrow> real" where
  "double_pixel_iou d g crowd =
     (let i = length (filter (\<lambda>x. x \<in> set g) d)
      in if crowd then double_div (real i) (real (length d))
         else double_div (real i) (real (length d + length g - i)))"

definition double_ext ::
  "(real option matrix \<Rightarrow> nat list \<times> nat list)
   \<Rightarrow> (nat list, nat list, bool \<times> bool, int, nat) ext" where
  "double_ext solver = (example_ext solver)\<lparr>iou1 := double_pixel_iou, fsub := double_sub\<rparr>"


definition mk_label ::
  "int \<Rightarrow> string \<Rightarrow> bool \<Rightarrow> nat list option \<Rightarrow> nat list option
   \<Rightarrow> (nat list, nat list, bool \<times> bool, int) label" where
  "mk_label i c crowd m p =
     \<lparr>label_id = i, category = c, attributes = (crowd, False), rle = m, poly2d = p\<rparr>"

definition mk_frame ::
  "int \<Rightarrow> (nat list, nat list, bool \<times> bool, int) label list
   \<Rightarrow> (nat list, nat list, bool \<times> bool, int) frame" where
  "mk_frame k ls = \<lparr>frameIndex = Some k, labels = Some ls\<rparr>"

subsection \<open>Notions the properties are stated with\<close>


text \<open>
  A prediction that parse_objects files among the ignore regions, and a frame without
  such predictions.
\<close>

definition pred_discarded ::
  "('m, 'p, 'a, 'i, 's) ext \<Rightarrow> string list \<Rightarrow> 's option \<Rightarrow> ('m, 'p, 'a, 'i) label \<Rightarrow> bool" where
  "pred_discarded X classes image_size obj \<longleftrightarrow>
     (rle obj \<noteq> None \<or> (poly2d obj \<noteq> None \<and> image_size \<noteq> None)) \<and>
     category obj \<in> set classes \<and> (check_crowd X obj \<or> check_ignored X obj)"

definition drop_discarded ::
  "('m, 'p, 'a, 'i, 's) ext \<Rightarrow> string list \<Rightarrow> 's option \<Rightarrow> ('m, 'p, 'a, 'i) frame
   \<Rightarrow> ('m, 'p, 'a, 'i) frame" where
  "drop_discarded X classes image_size fr =
     fr\<lparr>labels := map_option (filter (\<lambda>obj. \<not> pred_discarded X classes image_size obj))
                     (labels fr)\<rparr>"

text \<open>
  The three lists of detections of a parse, without its ignore regions.
\<close>

definition core :: "'a \<times> 'b \<times> 'c \<times> 'd \<Rightarrow> 'a \<times> 'b \<times> 'c" where
  "core st = (case st of (rles, labs, ids, ignore_rles) \<Rightarrow> (rles, labs, ids))"

text \<open>
  The misalignments the validation looks for: between the frames of two videos (their
  numbers, or the frame indices of two frames paired in sorted order), and between two
  collections of videos.
\<close>

definition frames_mismatch :: "('m, 'p, 'a, 'i) frame list \<Rightarrow> ('m, 'p, 'a, 'i) frame list \<Rightarrow> bool" where
  "frames_mismatch gts results \<longleftrightarrow>
     length gts \<noteq> length results \<or>
     (\<exists>(g, r) \<in> set (zip (sort_key get_frame_index gts) (sort_key get_frame_index results)).
        frameIndex g \<noteq> frameIndex r)"

definition videos_mismatch ::
  "('m, 'p, 'a, 'i) frame list list \<Rightarrow> ('m, 'p, 'a, 'i) frame list list \<Rightarrow> bool" where
  "videos_mismatch gts results \<longleftrightarrow>
     length gts \<noteq> length results \<or>
     (\<exists>(g, r) \<in> set (zip gts results). frames_mismatch g r)"

section \<open>Properties\<close>

lemmas ex_simps = example_ext_def mk_label_def parse_objects_def to_arrays_def parse_object_def
  resolve_rle_def ConfigError_def UnknownCategoryError_def ShapeMismatchError_def

lemmas mx_simps = cost_matrix_def full_def transpose_m_def map_matrix_def iou_def shape_def
  pixel_iou_def select_def select_cols_def example_ext_def Let_def

lemmas run_simps = video_accs_def acc_single_video_mots_def acc_frame_def acc_class_def
  class_match_def ignore_filter_def label_ids_to_int_def get_frame_index_def mk_frame_def
  ex_simps mx_simps

lemmas shape_simps = frames_mismatch_def videos_mismatch_def

subsection \<open>parse_objects\<close>








lemma parse_object_maskless:
  "rle obj = None \<Longrightarrow> poly2d obj = None \<Longrightarrow> parse_object X classes iuc sz st obj = Inr st"
  by (simp add: parse_object_def resolve_rle_def split: prod.splits)

lemma parse_loop_filter_maskless:
  "parse_loop X classes iuc sz st (filter (\<lambda>obj. rle obj \<noteq> None \<or> poly2d obj \<noteq> None) objects) =
   parse_loop X classes iuc sz st objects"
  by (induction objects arbitrary: st) (auto simp: parse_object_maskless split: sum.splits)

text \<open>
  Claim C8. An object with neither a native mask nor a polygon outline is skipped by the
  loop of parse_objects before its category is looked at: the loop body leaves the four
  lists as they are, whatever the category and the flag, and parse_objects returns what it
  returns on the list without such objects. So such an object never raises the
  unknown-category error.
\<close>

theorem parse_objects_skips_maskless:
  "(rle obj = None \<and> poly2d obj = None \<longrightarrow>
      parse_object X classes ignore_unknown_cats image_size st obj = Inr st) \<and>
   parse_objects X objects classes ignore_unknown_cats image_size =
   parse_objects X (filter (\<lambda>obj. rle obj \<noteq> None \<or> poly2d obj \<noteq> None) objects)
     classes ignore_unknown_cats image_size"
proof (intro conjI impI)
  assume "rle obj = None \<and> poly2d obj = None"
  then show "parse_object X classes ignore_unknown_cats image_size st obj = Inr st"
    by (simp add: parse_object_maskless)
next
  show "parse_objects X objects classes ignore_unknown_cats image_size =
        parse_objects X (filter (\<lambda>obj. rle obj \<noteq> None \<or> poly2d obj \<noteq> None) objects)
          classes ignore_unknown_cats image_size"
    unfolding parse_objects_def by (simp only: parse_loop_filter_maskless)
qed

theorem parse_objects_skips_maskless_witness:
  "parse_objects (example_ext (\<lambda>d. ([], []))) [mk_label 7 ''dog'' False None None,
       mk_label 8 ''car'' False (Some [1, 2]) None] [''car''] False None
   = Inr ([[1, 2]], [0], [8], [])"
  using parse_objects_skips_maskless [of "mk_label 7 ''dog'' False None None"
      "example_ext (\<lambda>d. ([], []))" "[''car'']" False None "([], [], [], [])"
      "[mk_label 7 ''dog'' False None None, mk_label 8 ''car'' False (Some [1, 2]) None]"]
  by (simp add: ex_simps)







subsection \<open>Rounding to the nearest double\<close>

lemma round_half_even_range: "\<lfloor>r\<rfloor> \<le> round_half_even r \<and> round_half_even r \<le> \<lfloor>r\<rfloor> + 1"
  by (simp add: round_half_even_def Let_def)

lemma round_half_even_int [simp]: "round_half_even (of_int n) = n"
  by (simp add: round_half_even_def)

lemma round_half_even_mono:
  assumes "a \<le> b" shows "round_half_even a \<le> round_half_even b"
proof (cases "\<lfloor>a\<rfloor> < \<lfloor>b\<rfloor>")
  case True
  then show ?thesis
    using round_half_even_range [of a] round_half_even_range [of b] by linarith
next
  case False
  with assms have eq: "\<lfloor>a\<rfloor> = \<lfloor>b\<rfloor>"
    using floor_mono [of a b] by linarith
  with assms show ?thesis
    by (auto simp: round_half_even_def Let_def)
qed

lemma round_half_even_ge: "of_int m \<le> r \<Longrightarrow> m \<le> round_half_even r"
  using round_half_even_mono [of "of_int m" r] by simp

lemma round_half_even_le: "r \<le> of_int m \<Longrightarrow> round_half_even r \<le> m"
  using round_half_even_mono [of r "of_int m"] by simp

lemma ulp_from_spec:
  "e \<le> ulp_from n e a \<and> ulp_from n e a \<le> e + int n \<and>
   (ulp_from n e a < e + int n \<longrightarrow> a < 2 powi (ulp_from n e a + 53)) \<and>
   (e < ulp_from n e a \<longrightarrow> 2 powi (ulp_from n e a + 52) \<le> a)"
proof (induction n arbitrary: e)
  case 0
  then show ?case by simp
next
  case (Suc n)
  show ?case
  proof (cases "a < 2 powi (e + 53)")
    case True
    then show ?thesis by simp
  next
    case False
    have s: "ulp_from (Suc n) e a = ulp_from n (e + 1) a"
      using False by simp
    from Suc.IH [of "e + 1"] False show ?thesis
      unfolding s
      by (cases "ulp_from n (e + 1) a = e + 1") (auto simp: add.commute add.left_commute algebra_simps)
  qed
qed

lemma ulp_from_mono: "a \<le> b \<Longrightarrow> ulp_from n e a \<le> ulp_from n e b"
proof (induction n arbitrary: e)
  case 0
  then show ?case by simp
next
  case (Suc n)
  from ulp_from_spec [of "e + 1" n b] have "e \<le> ulp_from n (e + 1) b" by linarith
  with Suc show ?case by auto
qed

lemma ulp_pos: "0 < ulp a"
  by (simp add: ulp_def)

lemma ulp_exponent:
  "- 1074 \<le> ulp_from 2045 (- 1074) a \<and> ulp_from 2045 (- 1074) a \<le> 971 \<and>
   (ulp_from 2045 (- 1074) a < 971 \<longrightarrow> a < 2 powi (ulp_from 2045 (- 1074) a + 53)) \<and>
   (- 1074 < ulp_from 2045 (- 1074) a \<longrightarrow> 2 powi (ulp_from 2045 (- 1074) a + 52) \<le> a)"
  using ulp_from_spec [of "- 1074" 2045 a] by simp

lemma ulp_eq:
  assumes "- 1074 < e" and "e < 971" and "2 powi (e + 52) \<le> \<bar>a\<bar>" and "\<bar>a\<bar> < 2 powi (e + 53)"
  shows "ulp a = 2 powi e"
proof -
  let ?r = "ulp_from 2045 (- 1074) \<bar>a\<bar>"
  note s = ulp_exponent [of "\<bar>a\<bar>"]
  have "\<not> ?r < e"
  proof
    assume l: "?r < e"
    with assms(2) s have "\<bar>a\<bar> < 2 powi (?r + 53)" by simp
    moreover have "(2::real) powi (?r + 53) \<le> 2 powi (e + 52)"
      using l by (intro power_int_increasing) auto
    ultimately show False using assms(3) by linarith
  qed
  moreover have "\<not> e < ?r"
  proof
    assume l: "e < ?r"
    with assms(1) s have "2 powi (?r + 52) \<le> \<bar>a\<bar>" by simp
    moreover have "(2::real) powi (e + 53) \<le> 2 powi (?r + 52)"
      using l by (intro power_int_increasing) auto
    ultimately show False using assms(4) by linarith
  qed
  ultimately have "?r = e" by linarith
  then show ?thesis by (simp add: ulp_def)
qed

lemma round_magnitude_nonneg: "0 \<le> a \<Longrightarrow> 0 \<le> round_magnitude a"
proof -
  assume "0 \<le> a"
  then have "of_int 0 \<le> a / ulp a" using ulp_pos [of a] by simp
  from round_half_even_ge [OF this] show ?thesis
    using ulp_pos [of a] by (simp add: round_magnitude_def)
qed

lemma round_magnitude_mono:
  assumes "0 \<le> a" and "a \<le> b"
  shows "round_magnitude a \<le> round_magnitude b"
proof -
  let ?ea = "ulp_from 2045 (- 1074) a" and ?eb = "ulp_from 2045 (- 1074) b"
  have a: "\<bar>a\<bar> = a" and b: "\<bar>b\<bar> = b" using assms by simp_all
  have ua: "ulp a = 2 powi ?ea" and ub: "ulp b = 2 powi ?eb"
    by (simp_all add: ulp_def a b)
  have le: "?ea \<le> ?eb" using assms(2) by (rule ulp_from_mono)
  show ?thesis
  proof (cases "?ea = ?eb")
    case True
    then have u: "ulp a = ulp b" by (simp add: ua ub)
    have "a / ulp b \<le> b / ulp b"
      using assms(2) ulp_pos [of b] by (simp add: divide_right_mono)
    from round_half_even_mono [OF this] show ?thesis
      using ulp_pos [of b] by (simp add: round_magnitude_def u mult_right_mono)
  next
    case False
    with le have lt: "?ea < ?eb" by simp
    note sa = ulp_exponent [of a] and sb = ulp_exponent [of b]
    from lt sb have "?ea < 971" by linarith
    with sa have "a < 2 powi (?ea + 53)" by simp
    then have "a / ulp a \<le> 2 powi 53"
      by (simp add: ua power_int_add field_simps)
    then have "a / ulp a \<le> of_int (2 ^ 53)" by simp
    from round_half_even_le [OF this]
    have "of_int (round_half_even (a / ulp a)) \<le> (2::real) ^ 53"
      by (metis of_int_le_iff of_int_numeral of_int_power)
    then have "round_magnitude a \<le> 2 ^ 53 * ulp a"
      using ulp_pos [of a] by (simp add: round_magnitude_def mult_right_mono)
    also have "\<dots> = 2 powi (?ea + 53)"
      by (simp add: ua power_int_add)
    also have "\<dots> \<le> 2 powi (?eb + 52)"
      using lt by (intro power_int_increasing) auto
    finally have 1: "round_magnitude a \<le> 2 powi (?eb + 52)" .
    from lt sa have "- 1074 < ?eb" by linarith
    with sb have "2 powi (?eb + 52) \<le> b" by simp
    then have "2 powi 52 \<le> b / ulp b"
      by (simp add: ub power_int_add field_simps)
    then have "of_int (2 ^ 52) \<le> b / ulp b" by simp
    from round_half_even_ge [OF this]
    have "(2::real) ^ 52 \<le> of_int (round_half_even (b / ulp b))"
      by (metis of_int_le_iff of_int_numeral of_int_power)
    then have "2 ^ 52 * ulp b \<le> round_magnitude b"
      using ulp_pos [of b] by (simp add: round_magnitude_def mult_right_mono)
    moreover have "2 ^ 52 * ulp b = 2 powi (?eb + 52)"
      by (simp add: ub power_int_add)
    ultimately have 2: "2 powi (?eb + 52) \<le> round_magnitude b" by simp
    from 1 2 show ?thesis by linarith
  qed
qed

lemma double_round_mono:
  assumes "a \<le> b" shows "double_round a \<le> double_round b"
proof -
  consider "0 \<le> a" | "a < 0" "b < 0" | "a < 0" "0 \<le> b" by linarith
  then show ?thesis
  proof cases
    case 1
    with assms show ?thesis
      by (simp add: double_round_def round_magnitude_mono)
  next
    case 2
    with assms round_magnitude_mono [of "- b" "- a"] show ?thesis
      by (simp add: double_round_def)
  next
    case 3
    with round_magnitude_nonneg [of "- a"] round_magnitude_nonneg [of b] show ?thesis
      by (simp add: double_round_def)
  qed
qed

lemma double_sub_antimono: "a \<le> b \<Longrightarrow> double_sub c b \<le> double_sub c a"
  unfolding double_sub_def by (rule double_round_mono) simp

lemma double_round_binade:
  assumes "0 \<le> x" and "- 1074 < e" and "e < 971"
    and "2 powi (e + 52) \<le> x" and "x < 2 powi (e + 53)"
  shows "double_round x = of_int (round_half_even (x / 2 powi e)) * 2 powi e"
proof -
  have "ulp x = 2 powi e"
    using assms by (intro ulp_eq) simp_all
  with assms(1) show ?thesis
    by (simp add: double_round_def round_magnitude_def)
qed

text \<open>The double nearest to 3/10, and two subtractions that round to the same double.\<close>

lemma double_div_3_10: "double_div 3 10 = 5404319552844595 / 18014398509481984"
proof -
  have "double_round (3 / 10) = of_int (round_half_even (3 / 10 / 2 powi (- 54))) * 2 powi (- 54)"
    by (rule double_round_binade) simp_all
  then show ?thesis
    by (simp add: double_div_def round_half_even_def Let_def)
qed

lemma double_sub_below:
  "double_sub 1 (5404319552844595 / 18014398509481984) = 3152519739159347 / 4503599627370496"
proof -
  have "double_round (1 - 5404319552844595 / 18014398509481984)
      = of_int (round_half_even ((1 - 5404319552844595 / 18014398509481984) / 2 powi (- 53)))
          * 2 powi (- 53)"
    by (rule double_round_binade) simp_all
  then show ?thesis
    by (simp add: double_sub_def round_half_even_def Let_def)
qed

lemma double_sub_above:
  "double_sub 1 (1351079888211149 / 4503599627370496) = 3152519739159347 / 4503599627370496"
proof -
  have "double_round (1 - 1351079888211149 / 4503599627370496)
      = of_int (round_half_even ((1 - 1351079888211149 / 4503599627370496) / 2 powi (- 53)))
          * 2 powi (- 53)"
    by (rule double_round_binade) simp_all
  then show ?thesis
    by (simp add: double_sub_def round_half_even_def Let_def)
qed

lemma double_sub_half: "double_sub 1 (1 / 2) = 1 / 2"
proof -
  have "double_round (1 - 1 / 2)
      = of_int (round_half_even ((1 - 1 / 2) / 2 powi (- 53))) * 2 powi (- 53)"
    by (rule double_round_binade) simp_all
  then show ?thesis
    by (simp add: double_sub_def round_half_even_def Let_def)
qed

subsection \<open>The distance matrix and the ignore filter\<close>

lemma zip_replicate_const: "zip xs (replicate (length xs) c) = map (\<lambda>x. (x, c)) xs"
  by (induction xs) auto

lemma select_map_upt:
  "select xs (map P [0..<length xs]) = map ((!) xs) (filter P [0..<length xs])"
proof (induction xs rule: rev_induct)
  case Nil
  then show ?case by (simp add: select_def)
next
  case (snoc x xs)
  have "map ((!) (xs @ [x])) (filter P [0..<length xs]) = map ((!) xs) (filter P [0..<length xs])"
    by (rule map_cong) (auto simp: nth_append)
  with snoc show ?case
    by (simp add: select_def nth_append)
qed

lemma mark_matched_ok:
  "\<forall>(m, n) \<in> set ps. m < nrows d \<and> n < ncols d \<Longrightarrow>
   mark_matched d fps ps =
     Inr (map (\<lambda>n. fps ! n \<and> \<not> (\<exists>m. (m, n) \<in> set ps \<and> ents d ! m ! n \<noteq> None))
            [0..<length fps])"
proof (induction ps arbitrary: fps)
  case Nil
  then show ?case by (simp add: map_nth)
next
  case (Cons a ps)
  obtain m n where a: "a = (m, n)" by (cases a)
  from Cons.prems a have rng: "m < nrows d" "n < ncols d"
    and rest: "\<forall>(m, n) \<in> set ps. m < nrows d \<and> n < ncols d" by auto
  have upd: "\<And>x. x < length fps \<Longrightarrow> fps[n := False] ! x = (fps ! x \<and> x \<noteq> n)"
    by (metis nth_list_update_eq nth_list_update_neq)
  show ?case
    using Cons.IH [OF rest] rng a
    by (auto simp: upd)
qed

text \<open>
  Claim C3, as stated, fails in doubles: with the IoU 0.3 (three pixels out of ten) and the
  threshold 0.30000000000000004, the next double, the IoU is below the threshold, and both
  \<^verbatim>\<open>1 - IoU\<close> and \<^verbatim>\<open>1 - iou_thr\<close> round to 0.7: the entry is kept.
\<close>

theorem cost_matrix_entries_counterexample:
  "iou1 (double_ext (\<lambda>d. ([0], [0]))) [4, 5, 6, 7, 8, 9, 10] [1, 2, 3, 4, 5, 6] False
     < 1351079888211149 / 4503599627370496 \<and>
   ents (cost_matrix (double_ext (\<lambda>d. ([0], [0]))) (1351079888211149 / 4503599627370496)
           [[1, 2, 3, 4, 5, 6]] [[4, 5, 6, 7, 8, 9, 10]]) ! 0 ! 0
     = Some (3152519739159347 / 4503599627370496)"
  by (simp add: mx_simps double_ext_def double_pixel_iou_def double_div_3_10 double_sub_below
        double_sub_above)

text \<open>
  Claim C3, amended. For non-empty ground truths and predictions of a class, the matrix has
  one row per ground truth and one column per prediction, and its entry \<open>(g, p)\<close> is the
  distance \<open>d\<close> that the subtraction \<^verbatim>\<open>1 - IoU\<close> gives when \<open>d\<close> does not exceed what
  \<^verbatim>\<open>1 - iou_thr\<close> gives, NaN when it does. Rounding is monotone, so an IoU that reaches the
  threshold always keeps its entry. When one side only is empty, the matrix has the
  matching zero dimension and no entry other than NaN.
\<close>

theorem cost_matrix_entries:
  "(gt \<noteq> [] \<and> pred \<noteq> [] \<longrightarrow>
      shape (cost_matrix X iou_thr gt pred) = (length gt, length pred) \<and>
      length (ents (cost_matrix X iou_thr gt pred)) = length gt \<and>
      (\<forall>g < length gt.
         length (ents (cost_matrix X iou_thr gt pred) ! g) = length pred \<and>
         (\<forall>p < length pred.
            ents (cost_matrix X iou_thr gt pred) ! g ! p =
              (if fsub X 1 (iou1 X (pred ! p) (gt ! g) False) > fsub X 1 iou_thr then None
               else Some (fsub X 1 (iou1 X (pred ! p) (gt ! g) False))) \<and>
            ((\<forall>a b. a \<le> b \<longrightarrow> fsub X 1 b \<le> fsub X 1 a) \<and>
             iou_thr \<le> iou1 X (pred ! p) (gt ! g) False \<longrightarrow>
               ents (cost_matrix X iou_thr gt pred) ! g ! p
                 = Some (fsub X 1 (iou1 X (pred ! p) (gt ! g) False)))))) \<and>
   (gt = [] \<and> pred \<noteq> [] \<longrightarrow>
      shape (cost_matrix X iou_thr gt pred) = (0, length pred) \<and>
      (\<forall>row \<in> set (ents (cost_matrix X iou_thr gt pred)). \<forall>v \<in> set row. v = None)) \<and>
   (gt \<noteq> [] \<and> pred = [] \<longrightarrow>
      shape (cost_matrix X iou_thr gt pred) = (length gt, 0) \<and>
      (\<forall>row \<in> set (ents (cost_matrix X iou_thr gt pred)). \<forall>v \<in> set row. v = None))"
proof -
  have e: "\<And>g p. gt \<noteq> [] \<Longrightarrow> pred \<noteq> [] \<Longrightarrow> g < length gt \<Longrightarrow> p < length pred \<Longrightarrow>
      ents (cost_matrix X iou_thr gt pred) ! g ! p =
        (if fsub X 1 (iou1 X (pred ! p) (gt ! g) False) > fsub X 1 iou_thr then None
         else Some (fsub X 1 (iou1 X (pred ! p) (gt ! g) False)))"
    by (simp add: cost_matrix_def transpose_m_def map_matrix_def iou_def zip_replicate_const
          Let_def)
  have m: "\<And>g p. gt \<noteq> [] \<Longrightarrow> pred \<noteq> [] \<Longrightarrow> g < length gt \<Longrightarrow> p < length pred \<Longrightarrow>
      (\<forall>a b. a \<le> b \<longrightarrow> fsub X 1 b \<le> fsub X 1 a) \<and>
      iou_thr \<le> iou1 X (pred ! p) (gt ! g) False \<Longrightarrow>
      ents (cost_matrix X iou_thr gt pred) ! g ! p
        = Some (fsub X 1 (iou1 X (pred ! p) (gt ! g) False))"
  proof -
    fix g p
    assume h: "gt \<noteq> []" "pred \<noteq> []" "g < length gt" "p < length pred"
      and a: "(\<forall>a b. a \<le> b \<longrightarrow> fsub X 1 b \<le> fsub X 1 a) \<and>
        iou_thr \<le> iou1 X (pred ! p) (gt ! g) False"
    then have "fsub X 1 (iou1 X (pred ! p) (gt ! g) False) \<le> fsub X 1 iou_thr"
      by blast
    then show "ents (cost_matrix X iou_thr gt pred) ! g ! p
        = Some (fsub X 1 (iou1 X (pred ! p) (gt ! g) False))"
      unfolding e [OF h] by simp
  qed
  have s: "gt \<noteq> [] \<Longrightarrow> pred \<noteq> [] \<Longrightarrow>
      shape (cost_matrix X iou_thr gt pred) = (length gt, length pred) \<and>
      length (ents (cost_matrix X iou_thr gt pred)) = length gt \<and>
      (\<forall>g < length gt. length (ents (cost_matrix X iou_thr gt pred) ! g) = length pred)"
    by (simp add: cost_matrix_def shape_def transpose_m_def map_matrix_def iou_def Let_def)
  have o: "(gt = [] \<and> pred \<noteq> [] \<longrightarrow>
      shape (cost_matrix X iou_thr gt pred) = (0, length pred) \<and>
      (\<forall>row \<in> set (ents (cost_matrix X iou_thr gt pred)). \<forall>v \<in> set row. v = None)) \<and>
   (gt \<noteq> [] \<and> pred = [] \<longrightarrow>
      shape (cost_matrix X iou_thr gt pred) = (length gt, 0) \<and>
      (\<forall>row \<in> set (ents (cost_matrix X iou_thr gt pred)). \<forall>v \<in> set row. v = None))"
    by (auto simp: cost_matrix_def shape_def full_def)
  have n: "gt \<noteq> [] \<and> pred \<noteq> [] \<longrightarrow>
      shape (cost_matrix X iou_thr gt pred) = (length gt, length pred) \<and>
      length (ents (cost_matrix X iou_thr gt pred)) = length gt \<and>
      (\<forall>g < length gt.
         length (ents (cost_matrix X iou_thr gt pred) ! g) = length pred \<and>
         (\<forall>p < length pred.
            ents (cost_matrix X iou_thr gt pred) ! g ! p =
              (if fsub X 1 (iou1 X (pred ! p) (gt ! g) False) > fsub X 1 iou_thr then None
               else Some (fsub X 1 (iou1 X (pred ! p) (gt ! g) False))) \<and>
            ((\<forall>a b. a \<le> b \<longrightarrow> fsub X 1 b \<le> fsub X 1 a) \<and>
             iou_thr \<le> iou1 X (pred ! p) (gt ! g) False \<longrightarrow>
               ents (cost_matrix X iou_thr gt pred) ! g ! p
                 = Some (fsub X 1 (iou1 X (pred ! p) (gt ! g) False)))))"
  proof
    assume "gt \<noteq> [] \<and> pred \<noteq> []"
    then have h: "gt \<noteq> []" "pred \<noteq> []" by simp_all
    note s' = s [OF h]
    show "shape (cost_matrix X iou_thr gt pred) = (length gt, length pred) \<and>
      length (ents (cost_matrix X iou_thr gt pred)) = length gt \<and>
      (\<forall>g < length gt.
         length (ents (cost_matrix X iou_thr gt pred) ! g) = length pred \<and>
         (\<forall>p < length pred.
            ents (cost_matrix X iou_thr gt pred) ! g ! p =
              (if fsub X 1 (iou1 X (pred ! p) (gt ! g) False) > fsub X 1 iou_thr then None
               else Some (fsub X 1 (iou1 X (pred ! p) (gt ! g) False))) \<and>
            ((\<forall>a b. a \<le> b \<longrightarrow> fsub X 1 b \<le> fsub X 1 a) \<and>
             iou_thr \<le> iou1 X (pred ! p) (gt ! g) False \<longrightarrow>
               ents (cost_matrix X iou_thr gt pred) ! g ! p
                 = Some (fsub X 1 (iou1 X (pred ! p) (gt ! g) False)))))"
    proof (intro conjI allI impI)
      show "shape (cost_matrix X iou_thr gt pred) = (length gt, length pred)"
        using s' by (rule conjunct1)
      show "length (ents (cost_matrix X iou_thr gt pred)) = length gt"
        using s' by (elim conjE)
      fix g assume g: "g < length gt"
      show "length (ents (cost_matrix X iou_thr gt pred) ! g) = length pred"
        using s' g by (elim conjE allE [of _ g] impE)
      fix p assume p: "p < length pred"
      show "ents (cost_matrix X iou_thr gt pred) ! g ! p =
              (if fsub X 1 (iou1 X (pred ! p) (gt ! g) False) > fsub X 1 iou_thr then None
               else Some (fsub X 1 (iou1 X (pred ! p) (gt ! g) False)))"
        by (rule e [OF h g p])
      assume "(\<forall>a b. a \<le> b \<longrightarrow> fsub X 1 b \<le> fsub X 1 a) \<and>
             iou_thr \<le> iou1 X (pred ! p) (gt ! g) False"
      then show "ents (cost_matrix X iou_thr gt pred) ! g ! p
                 = Some (fsub X 1 (iou1 X (pred ! p) (gt ! g) False))"
        by (rule m [OF h g p])
    qed
  qed
  show ?thesis
    by (rule conjI [OF n o])
qed

theorem cost_matrix_entries_witness:
  "ents (cost_matrix (double_ext (\<lambda>d. ([0], [0]))) (1 / 4)
           [[1, 2, 3, 4, 5, 6]] [[4, 5, 6, 7, 8, 9, 10]]) ! 0 ! 0
     = Some (3152519739159347 / 4503599627370496) \<and>
   ents (cost_matrix (double_ext (\<lambda>d. ([0], [0]))) (1 / 2)
           [[1, 2, 3, 4, 5, 6]] [[4, 5, 6, 7, 8, 9, 10]]) ! 0 ! 0 = None \<and>
   shape (cost_matrix (double_ext (\<lambda>d. ([0], [0]))) (1 / 2)
           [[1, 2, 3, 4, 5, 6]] [[4, 5, 6, 7, 8, 9, 10]]) = (1, 1) \<and>
   shape (cost_matrix (double_ext (\<lambda>d. ([0], [0]))) (1 / 2) [] [[1, 2, 3, 4, 5]]) = (0, 1) \<and>
   shape (cost_matrix (double_ext (\<lambda>d. ([0], [0]))) (1 / 2) [[1, 2, 3, 4]] []) = (1, 0)"
proof -
  let ?X = "double_ext (\<lambda>d. ([0], [0]))"
  let ?gt = "[[1, 2, 3, 4, 5, 6 :: nat]]" and ?pred = "[[4, 5, 6, 7, 8, 9, 10 :: nat]]"
  have h: "?gt \<noteq> [] \<and> ?pred \<noteq> []" by simp
  have l: "(0::nat) < length ?gt" "(0::nat) < length ?pred" by simp_all
  have i: "iou1 ?X (?pred ! 0) (?gt ! 0) False = 5404319552844595 / 18014398509481984"
    by (simp add: double_ext_def double_pixel_iou_def double_div_3_10)
  have f: "fsub ?X = double_sub"
    by (simp add: double_ext_def)
  have mono: "\<forall>a b. a \<le> b \<longrightarrow> fsub ?X 1 b \<le> fsub ?X 1 a"
    unfolding f by (simp add: double_sub_antimono)
  have thr: "(1 / 4 :: real) \<le> iou1 ?X (?pred ! 0) (?gt ! 0) False"
    unfolding i by simp
  note e4 = cost_matrix_entries [of ?gt ?pred ?X "1 / 4", THEN conjunct1, THEN mp, OF h,
      THEN conjunct2, THEN conjunct2, THEN spec, THEN mp, OF l(1), THEN conjunct2,
      THEN spec, THEN mp, OF l(2)]
  have a: "ents (cost_matrix ?X (1 / 4) ?gt ?pred) ! 0 ! 0
      = Some (3152519739159347 / 4503599627370496)"
    using e4 [THEN conjunct2, THEN mp, OF conjI [OF mono thr]]
    unfolding i f double_sub_below .
  note e2 = cost_matrix_entries [of ?gt ?pred ?X "1 / 2", THEN conjunct1, THEN mp, OF h]
  have gt: "\<not> (3152519739159347 / 4503599627370496 :: real) \<le> 1 / 2" by simp
  have b: "ents (cost_matrix ?X (1 / 2) ?gt ?pred) ! 0 ! 0 = None"
    using e2 [THEN conjunct2, THEN conjunct2, THEN spec, THEN mp, OF l(1), THEN conjunct2,
        THEN spec, THEN mp, OF l(2), THEN conjunct1] gt
    unfolding i f double_sub_below double_sub_half by (simp only: not_le if_True)
  have c: "shape (cost_matrix ?X (1 / 2) ?gt ?pred) = (1, 1)"
    using e2 [THEN conjunct1] by simp
  have h1: "([] :: nat list list) = [] \<and> [[1, 2, 3, 4, 5 :: nat]] \<noteq> []" by simp
  have d: "shape (cost_matrix ?X (1 / 2) [] [[1, 2, 3, 4, 5]]) = (0, 1)"
    using cost_matrix_entries [of "[]" "[[1, 2, 3, 4, 5]]" ?X "1 / 2",
        THEN conjunct2, THEN conjunct1, THEN mp, OF h1, THEN conjunct1] by simp
  have h2: "[[1, 2, 3, 4 :: nat]] \<noteq> [] \<and> ([] :: nat list list) = []" by simp
  have g: "shape (cost_matrix ?X (1 / 2) [[1, 2, 3, 4]] []) = (1, 0)"
    using cost_matrix_entries [of "[[1, 2, 3, 4]]" "[]" ?X "1 / 2",
        THEN conjunct2, THEN conjunct2, THEN mp, OF h2, THEN conjunct1] by simp
  from a b c d g show ?thesis by blast
qed

lemma ignore_filter_ok:
  assumes sol: "linear_sum_assignment X d = (le, ri)"
    and rng: "\<forall>(m, n) \<in> set (zip le ri). m < nrows d \<and> n < ncols d"
    and len: "length ids = length preds"
  shows "ignore_filter X thr preds ids d ignores =
      Inr (map ((!) ids)
             (filter (\<lambda>n. (\<exists>m. (m, n) \<in> set (zip le ri) \<and> ents d ! m ! n \<noteq> None) \<or>
                           \<not> (\<exists>g \<in> set ignores. iou1 X (preds ! n) g True > thr))
                [0..<length preds]),
           select_cols d
             (map (\<lambda>n. (\<exists>m. (m, n) \<in> set (zip le ri) \<and> ents d ! m ! n \<noteq> None) \<or>
                        \<not> (\<exists>g \<in> set ignores. iou1 X (preds ! n) g True > thr))
                [0..<length preds]))"
proof -
  let ?keep = "\<lambda>n. (\<exists>m. (m, n) \<in> set (zip le ri) \<and> ents d ! m ! n \<noteq> None) \<or>
                        \<not> (\<exists>g \<in> set ignores. iou1 X (preds ! n) g True > thr)"
  have mm: "mark_matched d (replicate (length preds) True) (zip le ri) =
      Inr (map (\<lambda>n. \<not> (\<exists>m. (m, n) \<in> set (zip le ri) \<and> ents d ! m ! n \<noteq> None))
             [0..<length preds])"
    using mark_matched_ok [OF rng, of "replicate (length preds) True"] by simp
  have valid: "map (\<lambda>(f, g). \<not> (f \<and> g))
         (zip (map (\<lambda>n. \<not> (\<exists>m. (m, n) \<in> set (zip le ri) \<and> ents d ! m ! n \<noteq> None))
                 [0..<length preds])
              (map (list_ex (\<lambda>v. v > thr))
                 (ents (iou X preds ignores (replicate (length ignores) True)))))
       = map ?keep [0..<length preds]"
    by (rule nth_equalityI)
       (auto simp: iou_def zip_replicate_const list_ex_iff)
  have sel: "select ids (map ?keep [0..<length preds]) =
             map ((!) ids) (filter ?keep [0..<length preds])"
    using select_map_upt [of ids ?keep] len by simp
  show ?thesis
    unfolding ignore_filter_def Let_def sol prod.case mm sum.case valid sel ..
qed

lemma length_select: "length xs = length ks \<Longrightarrow> length (select xs ks) = length (filter id ks)"
  unfolding select_def by (induction xs ks rule: list_induct2) auto

text \<open>
  Claim C2. With at least one ignored region and one prediction of the class, and the
  solver's indices inside the matrix: the ids and the columns handed on to the accumulator
  are those of the predictions that \<open>keeps_prediction\<close> keeps, in their order: the ones
  the assignment matches at a finite distance, and the ones no ignored region covers
  above the threshold.
\<close>

theorem class_match_filtered:
  fixes X :: "('m, 'p, 'a, 'i, 's) ext"
  assumes ign: "gt_ignores \<noteq> []"
    and ne: "select pred_rles (map (\<lambda>l. l = i) pred_labels) \<noteq> []"
    and len: "length pred_rles = length pred_labels" "length pred_ids = length pred_labels"
    and sol: "linear_sum_assignment X
                (cost_matrix X iou_thr (select gt_rles (map (\<lambda>l. l = i) gt_labels))
                   (select pred_rles (map (\<lambda>l. l = i) pred_labels))) = (le, ri)"
    and rng: "\<forall>(m, n) \<in> set (zip le ri).
                m < nrows (cost_matrix X iou_thr (select gt_rles (map (\<lambda>l. l = i) gt_labels))
                   (select pred_rles (map (\<lambda>l. l = i) pred_labels))) \<and>
                n < ncols (cost_matrix X iou_thr (select gt_rles (map (\<lambda>l. l = i) gt_labels))
                   (select pred_rles (map (\<lambda>l. l = i) pred_labels)))"
  shows "class_match X iou_thr thr (gt_rles, gt_labels, gt_ids, gt_ignores)
           (pred_rles, pred_labels, pred_ids, unused) i =
         Inr (Some (select gt_ids (map (\<lambda>l. l = i) gt_labels),
           map ((!) (select pred_ids (map (\<lambda>l. l = i) pred_labels)))
             (filter (keeps_prediction X thr (select pred_rles (map (\<lambda>l. l = i) pred_labels))
                        gt_ignores
                        (cost_matrix X iou_thr (select gt_rles (map (\<lambda>l. l = i) gt_labels))
                           (select pred_rles (map (\<lambda>l. l = i) pred_labels))) le ri)
                [0..<length (select pred_rles (map (\<lambda>l. l = i) pred_labels))]),
           select_cols
             (cost_matrix X iou_thr (select gt_rles (map (\<lambda>l. l = i) gt_labels))
                (select pred_rles (map (\<lambda>l. l = i) pred_labels)))
             (map (keeps_prediction X thr (select pred_rles (map (\<lambda>l. l = i) pred_labels))
                        gt_ignores
                        (cost_matrix X iou_thr (select gt_rles (map (\<lambda>l. l = i) gt_labels))
                           (select pred_rles (map (\<lambda>l. l = i) pred_labels))) le ri)
                [0..<length (select pred_rles (map (\<lambda>l. l = i) pred_labels))])))"
proof -
  let ?pc = "select pred_rles (map (\<lambda>l. l = i) pred_labels)"
  let ?ic = "select pred_ids (map (\<lambda>l. l = i) pred_labels)"
  let ?D = "cost_matrix X iou_thr (select gt_rles (map (\<lambda>l. l = i) gt_labels)) ?pc"
  have l: "length ?ic = length ?pc"
    using len by (simp add: length_select)
  have kp: "keeps_prediction X thr ?pc gt_ignores ?D le ri =
     (\<lambda>n. (\<exists>m. (m, n) \<in> set (zip le ri) \<and> ents ?D ! m ! n \<noteq> None) \<or>
                           \<not> (\<exists>g \<in> set gt_ignores. iou1 X (?pc ! n) g True > thr))"
    by (rule ext) (auto simp: keeps_prediction_def)
  show ?thesis
    using ign ne
    by (simp add: class_match_def Let_def ignore_filter_ok [OF sol rng l] kp)
qed

theorem class_match_filtered_witness:
  "class_match (example_ext (\<lambda>d. ([0], [0]))) (1 / 2) (1 / 2)
     ([[1, 2, 3, 4]], [0], [1], [[10, 11, 12, 13]])
     ([[1, 2, 3, 4, 5], [10, 11, 20], [30, 31]], [0, 0, 0], [101, 102, 103], []) 0
   = Inr (Some ([1], [101, 103], \<lparr>nrows = 1, ncols = 2, ents = [[Some (1 / 5), None]]\<rparr>))"
proof -
  let ?X = "example_ext (\<lambda>d. ([0], [0]))"
  let ?D = "cost_matrix ?X (1 / 2) (select [[1, 2, 3, 4]] (map (\<lambda>l. l = 0) [0::nat]))
              (select [[1, 2, 3, 4, 5], [10, 11, 20], [30, 31]] (map (\<lambda>l. l = 0) [0, 0, 0::nat]))"
  have D: "?D = \<lparr>nrows = 1, ncols = 3, ents = [[Some (1 / 5), None, None]]\<rparr>"
    by (simp add: mx_simps)
  have h1: "[[10, 11, 12, 13]] \<noteq> ([] :: nat list list)" by simp
  have h2: "select [[1, 2, 3, 4, 5], [10, 11, 20], [30, 31 :: nat]]
              (map (\<lambda>l. l = 0) [0, 0, 0 :: nat]) \<noteq> []"
    by (simp add: select_def)
  have h3: "length [[1, 2, 3, 4, 5], [10, 11, 20], [30, 31 :: nat]] = length [0, 0, 0 :: nat]"
    by simp
  have h4: "length [101, 102, 103 :: int] = length [0, 0, 0 :: nat]" by simp
  have h5: "linear_sum_assignment ?X ?D = ([0], [0])"
    by (simp add: example_ext_def)
  have h6: "\<forall>(m, n) \<in> set (zip [0] [0]). m < nrows ?D \<and> n < ncols ?D"
    unfolding D by simp
  show ?thesis
    unfolding class_match_filtered [of "[[10, 11, 12, 13]]" _ 0 _ "[101, 102, 103]" ?X "1 / 2"
        "[[1, 2, 3, 4]]" "[0]" "[0]" "[0]" "1 / 2" "[1]" "[]", OF h1 h2 h3 h4 h5 h6] D
    by (simp add: select_def select_cols_def keeps_prediction_def example_ext_def pixel_iou_def)
qed

lemma mark_matched_length: "mark_matched d fps ps = Inr r \<Longrightarrow> length r = length fps"
  by (induction d fps ps rule: mark_matched.induct) (auto split: if_splits)

lemma shape_cost_matrix: "shape (cost_matrix X t gt pred) = (length gt, length pred)"
  by (auto simp: cost_matrix_def shape_def full_def transpose_m_def map_matrix_def iou_def Let_def)

lemma ignore_filter_shape:
  assumes "ignore_filter X thr preds ids d ignores = Inr (p, d')"
    and "length ids = length preds"
  shows "nrows d' = nrows d \<and> ncols d' = length p"
proof -
  obtain le ri where sol: "linear_sum_assignment X d = (le, ri)"
    by (cases "linear_sum_assignment X d")
  from assms(1) sol obtain fps where
    mm: "mark_matched d (replicate (length preds) True) (zip le ri) = Inr fps"
    by (auto simp: ignore_filter_def Let_def split: sum.splits)
  have lf: "length fps = length preds"
    using mark_matched_length [OF mm] by simp
  let ?valid = "map (\<lambda>(f, g). \<not> (f \<and> g))
      (zip fps (map (list_ex (\<lambda>v. v > thr))
                  (ents (iou X preds ignores (replicate (length ignores) True)))))"
  have lv: "length ?valid = length ids"
    using lf assms(2) by (simp add: iou_def)
  from assms(1) sol mm have "p = select ids ?valid" "d' = select_cols d ?valid"
    by (auto simp: ignore_filter_def Let_def)
  then show ?thesis
    using length_select [of ids ?valid] lv by (simp add: select_cols_def)
qed

lemma class_match_shape:
  assumes "length gt_rles = length gt_labels" "length gt_ids = length gt_labels"
    "length pred_rles = length pred_labels" "length pred_ids = length pred_labels"
    and cm: "class_match X iou_thr thr (gt_rles, gt_labels, gt_ids, gt_ignores)
           (pred_rles, pred_labels, pred_ids, unused) i = Inr (Some (g, p, d))"
  shows "shape d = (length g, length p)"
proof -
  let ?gc = "select gt_rles (map (\<lambda>l. l = i) gt_labels)"
  let ?pc = "select pred_rles (map (\<lambda>l. l = i) pred_labels)"
  let ?gi = "select gt_ids (map (\<lambda>l. l = i) gt_labels)"
  let ?pi = "select pred_ids (map (\<lambda>l. l = i) pred_labels)"
  let ?D = "cost_matrix X iou_thr ?gc ?pc"
  have lg: "length ?gi = length ?gc" and lp: "length ?pi = length ?pc"
    using assms(1-4) by (simp_all add: length_select)
  have sD: "nrows ?D = length ?gc" "ncols ?D = length ?pc"
    using shape_cost_matrix [of X iou_thr ?gc ?pc] by (simp_all add: shape_def)
  show ?thesis
  proof (cases "length gt_ignores > 0 \<and> length ?pc > 0")
    case True
    with cm have f: "ignore_filter X thr ?pc ?pi ?D gt_ignores = Inr (p, d)" and g: "g = ?gi"
      by (auto simp: class_match_def Let_def split: sum.splits if_splits)
    from ignore_filter_shape [OF f lp] sD lg g show ?thesis
      by (simp add: shape_def)
  next
    case False
    with cm have "g = ?gi" "p = ?pi" "d = ?D"
      by (auto simp: class_match_def Let_def split: sum.splits if_splits)
    then show ?thesis
      using sD lg lp by (simp add: shape_def)
  qed
qed

text \<open>
  Claim C4. For the lists parse_objects returns (equal lengths): a class with no ground
  truth and no prediction in the frame leaves the accumulators unchanged; otherwise the
  final matrix has one row per ground truth and one column per surviving prediction, and
  update is called, once, exactly when this matrix is not 0 by 0.
\<close>

theorem acc_class_update_iff:
  assumes "length gt_rles = length gt_labels" and "length gt_ids = length gt_labels"
    and "length pred_rles = length pred_labels" and "length pred_ids = length pred_labels"
    and "i < length accs"
  shows "(select gt_rles (map (\<lambda>l. l = i) gt_labels) = [] \<and>
          select pred_rles (map (\<lambda>l. l = i) pred_labels) = [] \<longrightarrow>
            acc_class X iou_thr thr (gt_rles, gt_labels, gt_ids, gt_ignores)
              (pred_rles, pred_labels, pred_ids, unused) accs i = Inr accs) \<and>
         (\<forall>g p d.
            class_match X iou_thr thr (gt_rles, gt_labels, gt_ids, gt_ignores)
              (pred_rles, pred_labels, pred_ids, unused) i = Inr (Some (g, p, d)) \<longrightarrow>
            shape d = (length g, length p) \<and>
            (shape d = (0, 0) \<longrightarrow>
               acc_class X iou_thr thr (gt_rles, gt_labels, gt_ids, gt_ignores)
                 (pred_rles, pred_labels, pred_ids, unused) accs i = Inr accs) \<and>
            (shape d \<noteq> (0, 0) \<longrightarrow>
               acc_class X iou_thr thr (gt_rles, gt_labels, gt_ids, gt_ignores)
                 (pred_rles, pred_labels, pred_ids, unused) accs i
                 = Inr (accs[i := accs ! i @ [(g, p, d)]]) \<and>
               accs[i := accs ! i @ [(g, p, d)]] \<noteq> accs)) \<and>
         (\<forall>accs'.
            acc_class X iou_thr thr (gt_rles, gt_labels, gt_ids, gt_ignores)
              (pred_rles, pred_labels, pred_ids, unused) accs i = Inr accs' \<longrightarrow>
            (accs' \<noteq> accs \<longleftrightarrow>
               (\<exists>g p d. class_match X iou_thr thr (gt_rles, gt_labels, gt_ids, gt_ignores)
                    (pred_rles, pred_labels, pred_ids, unused) i = Inr (Some (g, p, d)) \<and>
                  shape d \<noteq> (0, 0))))"
proof -
  have neq: "\<And>c. accs[i := accs ! i @ [c]] \<noteq> accs"
  proof
    fix c assume "accs[i := accs ! i @ [c]] = accs"
    then have "accs[i := accs ! i @ [c]] ! i = accs ! i" by simp
    with assms(5) show False by simp
  qed
  have 1: "select gt_rles (map (\<lambda>l. l = i) gt_labels) = [] \<and>
          select pred_rles (map (\<lambda>l. l = i) pred_labels) = [] \<longrightarrow>
            acc_class X iou_thr thr (gt_rles, gt_labels, gt_ids, gt_ignores)
              (pred_rles, pred_labels, pred_ids, unused) accs i = Inr accs"
    by (simp add: acc_class_def class_match_def)
  have 2: "\<forall>g p d.
            class_match X iou_thr thr (gt_rles, gt_labels, gt_ids, gt_ignores)
              (pred_rles, pred_labels, pred_ids, unused) i = Inr (Some (g, p, d)) \<longrightarrow>
            shape d = (length g, length p) \<and>
            (shape d = (0, 0) \<longrightarrow>
               acc_class X iou_thr thr (gt_rles, gt_labels, gt_ids, gt_ignores)
                 (pred_rles, pred_labels, pred_ids, unused) accs i = Inr accs) \<and>
            (shape d \<noteq> (0, 0) \<longrightarrow>
               acc_class X iou_thr thr (gt_rles, gt_labels, gt_ids, gt_ignores)
                 (pred_rles, pred_labels, pred_ids, unused) accs i
                 = Inr (accs[i := accs ! i @ [(g, p, d)]]) \<and>
               accs[i := accs ! i @ [(g, p, d)]] \<noteq> accs)"
    using class_match_shape [OF assms(1-4)] neq
    by (auto simp: acc_class_def)
  have 3: "\<forall>accs'.
            acc_class X iou_thr thr (gt_rles, gt_labels, gt_ids, gt_ignores)
              (pred_rles, pred_labels, pred_ids, unused) accs i = Inr accs' \<longrightarrow>
            (accs' \<noteq> accs \<longleftrightarrow>
               (\<exists>g p d. class_match X iou_thr thr (gt_rles, gt_labels, gt_ids, gt_ignores)
                    (pred_rles, pred_labels, pred_ids, unused) i = Inr (Some (g, p, d)) \<and>
                  shape d \<noteq> (0, 0)))"
    using neq
    by (auto simp: acc_class_def split: sum.splits option.splits if_splits)
  from 1 2 3 show ?thesis by blast
qed

theorem acc_class_update_iff_witness:
  "acc_class (example_ext (\<lambda>d. ([], []))) (1 / 2) (1 / 2)
     ([], [], [], [[10, 11, 12, 13]]) ([[10, 11, 20]], [0], [102], []) [[]] 0 = Inr [[]] \<and>
   acc_class (example_ext (\<lambda>d. ([], []))) (1 / 2) (1 / 2)
     ([], [], [], [[10, 11, 12, 13]]) ([[30, 31]], [0], [103], []) [[]] 0
     = Inr [[([], [103], \<lparr>nrows = 0, ncols = 1, ents = []\<rparr>)]] \<and>
   acc_class (example_ext (\<lambda>d. ([], []))) (1 / 2) (1 / 2)
     ([], [], [], [[10, 11, 12, 13]]) ([], [], [], []) [[]] 0 = Inr [[]]"
proof -
  let ?X = "example_ext (\<lambda>d. ([], []))"
  have l0: "length ([] :: nat list list) = length ([] :: nat list)"
    "length ([] :: int list) = length ([] :: nat list)" by simp_all
  have l1: "length [[10, 11, 20 :: nat]] = length [0 :: nat]"
    "length [102 :: int] = length [0 :: nat]"
    "length [[30, 31 :: nat]] = length [0 :: nat]"
    "length [103 :: int] = length [0 :: nat]" by simp_all
  have i: "0 < length [[] :: acc]" by simp
  have m1: "class_match ?X (1 / 2) (1 / 2) ([], [], [], [[10, 11, 12, 13]])
              ([[10, 11, 20]], [0], [102], []) 0
            = Inr (Some ([], [], \<lparr>nrows = 0, ncols = 0, ents = []\<rparr>))"
    by (simp add: class_match_def ignore_filter_def mx_simps)
  have m2: "class_match ?X (1 / 2) (1 / 2) ([], [], [], [[10, 11, 12, 13]])
              ([[30, 31]], [0], [103], []) 0
            = Inr (Some ([], [103], \<lparr>nrows = 0, ncols = 1, ents = []\<rparr>))"
    by (simp add: class_match_def ignore_filter_def mx_simps)
  have a: "acc_class ?X (1 / 2) (1 / 2)
     ([], [], [], [[10, 11, 12, 13]]) ([[10, 11, 20]], [0], [102], []) [[]] 0 = Inr [[]]"
    using acc_class_update_iff [OF l0 l1(1,2) i, of ?X "1 / 2" "1 / 2" "[[10, 11, 12, 13]]" "[]",
        THEN conjunct2, THEN conjunct1, rule_format, OF m1]
    by (simp add: shape_def)
  have b: "acc_class ?X (1 / 2) (1 / 2)
     ([], [], [], [[10, 11, 12, 13]]) ([[30, 31]], [0], [103], []) [[]] 0
     = Inr [[([], [103], \<lparr>nrows = 0, ncols = 1, ents = []\<rparr>)]]"
    using acc_class_update_iff [OF l0 l1(3,4) i, of ?X "1 / 2" "1 / 2" "[[10, 11, 12, 13]]" "[]",
        THEN conjunct2, THEN conjunct1, rule_format, OF m2]
    by (simp add: shape_def)
  have c: "acc_class ?X (1 / 2) (1 / 2)
     ([], [], [], [[10, 11, 12, 13]]) ([], [], [], []) [[]] 0 = Inr [[]]"
    using acc_class_update_iff [OF l0 l0 i, of ?X "1 / 2" "1 / 2" "[[10, 11, 12, 13]]" "[]",
        THEN conjunct1]
    by (simp add: select_def)
  from a b c show ?thesis by blast
qed

subsection \<open>Ignore regions and predictions\<close>




lemma parse_object_core:
  "core st = core st' \<Longrightarrow>
   rel_sum (=) (\<lambda>s s'. core s = core s')
     (parse_object X classes iuc sz st obj) (parse_object X classes iuc sz st' obj)"
  by (cases st; cases st')
     (auto simp: parse_object_def core_def split: sum.splits option.splits)

lemma parse_object_discarded:
  "pred_discarded X classes sz obj \<Longrightarrow>
   \<exists>s. parse_object X classes iuc sz st obj = Inr s \<and> core s = core st"
  by (cases st)
     (auto simp: pred_discarded_def parse_object_def resolve_rle_def core_def
        split: option.splits)

lemma parse_loop_core:
  "core st = core st' \<Longrightarrow>
   rel_sum (=) (\<lambda>s s'. core s = core s')
     (parse_loop X classes iuc sz st
        (filter (\<lambda>obj. \<not> pred_discarded X classes sz obj) objs))
     (parse_loop X classes iuc sz st' objs)"
proof (induction objs arbitrary: st st')
  case Nil
  then show ?case by simp
next
  case (Cons obj objs)
  show ?case
  proof (cases "pred_discarded X classes sz obj")
    case True
    then obtain s where s: "parse_object X classes iuc sz st' obj = Inr s" "core s = core st'"
      using parse_object_discarded by blast
    with Cons.prems have "core st = core s" by simp
    from Cons.IH [OF this] True s show ?thesis by simp
  next
    case False
    note rel = parse_object_core [OF Cons.prems, of X classes iuc sz obj]
    show ?thesis
    proof (cases "parse_object X classes iuc sz st obj")
      case (Inl e)
      with rel have "parse_object X classes iuc sz st' obj = Inl e"
        by (cases "parse_object X classes iuc sz st' obj") simp_all
      with Inl False show ?thesis by simp
    next
      case (Inr s)
      with rel obtain s' where s': "parse_object X classes iuc sz st' obj = Inr s'"
        "core s = core s'"
        by (cases "parse_object X classes iuc sz st' obj") simp_all
      with Inr False Cons.IH [of s s'] show ?thesis by simp
    qed
  qed
qed

lemma to_arrays_core:
  "core st = core st' \<Longrightarrow>
   rel_sum (=) (\<lambda>s s'. core s = core s') (to_arrays X st) (to_arrays X st')"
  by (cases st; cases st') (auto simp: to_arrays_def core_def split: sum.splits)

lemma parse_objects_core:
  "rel_sum (=) (\<lambda>s s'. core s = core s')
     (parse_objects X (filter (\<lambda>obj. \<not> pred_discarded X classes sz obj) objs) classes iuc sz)
     (parse_objects X objs classes iuc sz)"
proof -
  have "rel_sum (=) (\<lambda>s s'. core s = core s')
     (parse_loop X classes iuc sz ([], [], [], [])
        (filter (\<lambda>obj. \<not> pred_discarded X classes sz obj) objs))
     (parse_loop X classes iuc sz ([], [], [], []) objs)"
    by (rule parse_loop_core) simp
  then show ?thesis
    unfolding parse_objects_def
    by (cases "parse_loop X classes iuc sz ([], [], [], []) objs";
        cases "parse_loop X classes iuc sz ([], [], [], [])
                 (filter (\<lambda>obj. \<not> pred_discarded X classes sz obj) objs)")
       (simp_all add: to_arrays_core)
qed

lemma class_match_core:
  "core pred = core pred' \<Longrightarrow>
   class_match X t thr gt pred i = class_match X t thr gt pred' i"
  by (cases pred; cases pred') (simp add: class_match_def core_def)

lemma acc_classes_core:
  "core pred = core pred' \<Longrightarrow>
   acc_classes X t thr gt pred accs is = acc_classes X t thr gt pred' accs is"
proof -
  assume c: "core pred = core pred'"
  have "\<And>accs i. acc_class X t thr gt pred accs i = acc_class X t thr gt pred' accs i"
    by (simp add: acc_class_def class_match_core [OF c])
  then show ?thesis
    by (induction "is" arbitrary: accs) (simp_all split: sum.splits)
qed

lemma case_rel_sum:
  assumes "rel_sum (=) R a b" and "\<And>s s'. R s s' \<Longrightarrow> F s = F s'"
  shows "(case a of Inl e \<Rightarrow> Inl e | Inr s \<Rightarrow> F s) = (case b of Inl e \<Rightarrow> Inl e | Inr s \<Rightarrow> F s)"
  using assms by (cases a; cases b) auto

lemma acc_frame_drop:
  "acc_frame X classes t thr iuc sz accs (g, drop_discarded X classes sz r) =
   acc_frame X classes t thr iuc sz accs (g, r)"
proof -
  define ls where "ls = (case labels r of Some ls \<Rightarrow> ls | None \<Rightarrow> [])"
  have l: "(case labels (drop_discarded X classes sz r) of Some ls \<Rightarrow> ls | None \<Rightarrow> [])
        = filter (\<lambda>obj. \<not> pred_discarded X classes sz obj) ls"
    by (simp add: drop_discarded_def ls_def split: option.splits)
  have f: "frameIndex (drop_discarded X classes sz r) = frameIndex r"
    by (simp add: drop_discarded_def)
  have rel: "rel_sum (=) (\<lambda>s s'. core s = core s')
     (parse_objects X (filter (\<lambda>obj. \<not> pred_discarded X classes sz obj) ls) classes iuc sz)
     (parse_objects X ls classes iuc sz)"
    by (rule parse_objects_core)
  have inner: "\<And>gp. (case parse_objects X (filter (\<lambda>obj. \<not> pred_discarded X classes sz obj) ls)
                        classes iuc sz of
                   Inl e \<Rightarrow> Inl e
                 | Inr pp \<Rightarrow> acc_classes X t thr gp pp accs [0..<length classes])
         = (case parse_objects X ls classes iuc sz of
                   Inl e \<Rightarrow> Inl e
                 | Inr pp \<Rightarrow> acc_classes X t thr gp pp accs [0..<length classes])"
    by (rule case_rel_sum [OF rel]) (rule acc_classes_core)
  show ?thesis
    unfolding acc_frame_def prod.case l f inner ls_def [symmetric] ..
qed

lemma acc_frames_drop:
  "acc_frames X classes t thr iuc sz accs (zip gs (map (drop_discarded X classes sz) rs)) =
   acc_frames X classes t thr iuc sz accs (zip gs rs)"
proof (induction gs arbitrary: rs accs)
  case Nil
  then show ?case by simp
next
  case (Cons g gs)
  show ?case
  proof (cases rs)
    case Nil
    then show ?thesis by simp
  next
    case (Cons r rs')
    with Cons.IH show ?thesis
      by (simp add: acc_frame_drop split: sum.splits)
  qed
qed

lemma insort_key_map_same:
  assumes "\<And>x. k (f x) = k x"
  shows "insort_key k (f x) (map f xs) = map f (insort_key k x xs)"
  by (induction xs) (simp_all add: assms)

lemma sort_key_map_same:
  assumes "\<And>x. k (f x) = k x"
  shows "sort_key k (map f xs) = map f (sort_key k xs)"
  using assms by (induction xs) (simp_all add: insort_key_map_same)

text \<open>
  Claim C9. A prediction of a recognised category that is crowd or ignored goes to the
  ignore list of the prediction's parse, which acc_single_video_mots does not read:
  removing every such prediction from the prediction frames changes nothing in the result.
  Such predictions are neither matched, nor counted, nor used as ignore regions.
\<close>

theorem prediction_ignores_discarded:
  "acc_single_video_mots X gts (map (drop_discarded X classes image_size) results) classes
     iou_thr ignore_iof_thr ignore_unknown_cats image_size =
   acc_single_video_mots X gts results classes
     iou_thr ignore_iof_thr ignore_unknown_cats image_size"
proof -
  have k: "\<And>fr. get_frame_index (drop_discarded X classes image_size fr) = get_frame_index fr"
    by (simp add: get_frame_index_def drop_discarded_def)
  show ?thesis
    by (simp add: acc_single_video_mots_def Let_def acc_frames_drop
          sort_key_map_same [of get_frame_index "drop_discarded X classes image_size", OF k]
          split: sum.splits)
qed

theorem prediction_ignores_discarded_witness:
  "map (drop_discarded (example_ext (\<lambda>d. ([0], [0]))) [''car''] None)
     [mk_frame 0 [mk_label 101 ''car'' False (Some [1, 2, 3, 4, 5]) None,
                  mk_label 102 ''car'' True (Some [1, 2, 3]) None]]
     = [mk_frame 0 [mk_label 101 ''car'' False (Some [1, 2, 3, 4, 5]) None]] \<and>
   acc_single_video_mots (example_ext (\<lambda>d. ([0], [0])))
     [mk_frame 0 [mk_label 1 ''car'' False (Some [1, 2, 3, 4]) None]]
     [mk_frame 0 [mk_label 101 ''car'' False (Some [1, 2, 3, 4, 5]) None,
                  mk_label 102 ''car'' True (Some [1, 2, 3]) None]]
     [''car''] (Some (1 / 2)) (1 / 2) False None
     = Inr [[([1], [101], \<lparr>nrows = 1, ncols = 1, ents = [[Some (1 / 5)]]\<rparr>)]]"
proof -
  let ?X = "example_ext (\<lambda>d. ([0], [0]))"
  let ?gts = "[mk_frame 0 [mk_label 1 ''car'' False (Some [1, 2, 3, 4]) None]]"
  let ?res = "[mk_frame 0 [mk_label 101 ''car'' False (Some [1, 2, 3, 4, 5]) None,
                  mk_label 102 ''car'' True (Some [1, 2, 3]) None]]"
  have d: "map (drop_discarded ?X [''car''] None) ?res
     = [mk_frame 0 [mk_label 101 ''car'' False (Some [1, 2, 3, 4, 5]) None]]"
    by (simp add: drop_discarded_def pred_discarded_def mk_frame_def mk_label_def
          example_ext_def)
  have e: "acc_single_video_mots ?X ?gts
      [mk_frame 0 [mk_label 101 ''car'' False (Some [1, 2, 3, 4, 5]) None]]
      [''car''] (Some (1 / 2)) (1 / 2) False None
     = Inr [[([1], [101], \<lparr>nrows = 1, ncols = 1, ents = [[Some (1 / 5)]]\<rparr>)]]"
    by (simp add: run_simps)
  from prediction_ignores_discarded [of ?X ?gts "[''car'']" None ?res "Some (1 / 2)" "1 / 2" False]
  show ?thesis unfolding d e by simp
qed

subsection \<open>The validation of the shapes\<close>

lemma parse_loop_error:
  "parse_loop X classes iuc sz st objs = Inl e \<Longrightarrow> e \<noteq> ShapeMismatchError"
  by (induction objs arbitrary: st)
     (auto simp: parse_object_def resolve_rle_def ShapeMismatchError_def ConfigError_def
        UnknownCategoryError_def split: sum.splits option.splits if_splits prod.splits)

lemma int32_array_error:
  "int32_array X ids = Inl e \<Longrightarrow> e = ValueError \<or> e = OverflowError"
  by (induction ids) (auto split: sum.splits int32_result.splits)

lemma parse_objects_error:
  "parse_objects X objs classes iuc sz = Inl e \<Longrightarrow> e \<noteq> ShapeMismatchError"
  by (auto simp: parse_objects_def to_arrays_def ShapeMismatchError_def
        dest: parse_loop_error [unfolded ShapeMismatchError_def] int32_array_error
        split: sum.splits prod.splits)

lemma mark_matched_error: "mark_matched d fps ps = Inl e \<Longrightarrow> e = IndexError"
  by (induction d fps ps rule: mark_matched.induct) (auto split: if_splits)

lemma class_match_error: "class_match X t thr gt pred i = Inl e \<Longrightarrow> e = IndexError"
  by (cases gt; cases pred)
     (auto simp: class_match_def ignore_filter_def Let_def dest: mark_matched_error
        split: if_splits sum.splits prod.splits)

lemma acc_classes_error: "acc_classes X t thr gt pred accs is = Inl e \<Longrightarrow> e = IndexError"
  by (induction "is" arbitrary: accs)
     (auto simp: acc_class_def dest: class_match_error split: sum.splits option.splits if_splits)

lemma acc_frames_no_mismatch:
  "\<forall>(g, r) \<in> set ps. frameIndex g = frameIndex r \<Longrightarrow>
   acc_frames X classes t thr iuc sz accs ps \<noteq> Inl ShapeMismatchError"
proof (induction ps arbitrary: accs)
  case Nil
  then show ?case by simp
next
  case (Cons p ps)
  obtain g r where p: "p = (g, r)" by (cases p)
  with Cons.prems have eq: "frameIndex g = frameIndex r" by simp
  have "acc_frame X classes t thr iuc sz accs (g, r) \<noteq> Inl ShapeMismatchError"
    using eq
    by (auto simp: acc_frame_def ShapeMismatchError_def
          dest!: parse_objects_error [unfolded ShapeMismatchError_def] acc_classes_error
          split: sum.splits)
  with Cons p show ?case
    by (auto split: sum.splits)
qed

lemma acc_frames_mismatch_fails:
  "\<exists>(g, r) \<in> set ps. frameIndex g \<noteq> frameIndex r \<Longrightarrow>
   \<exists>e. acc_frames X classes t thr iuc sz accs ps = Inl e"
proof (induction ps arbitrary: accs)
  case Nil
  then show ?case by simp
next
  case (Cons p ps)
  obtain g r where p: "p = (g, r)" by (cases p)
  show ?case
  proof (cases "frameIndex g \<noteq> frameIndex r")
    case True
    with p show ?thesis by (simp add: acc_frame_def)
  next
    case False
    with Cons.prems p have "\<exists>(g, r) \<in> set ps. frameIndex g \<noteq> frameIndex r" by auto
    from Cons.IH [OF this] show ?thesis
      by (cases "acc_frame X classes t thr iuc sz accs p") auto
  qed
qed

lemma acc_frames_append:
  "acc_frames X classes t thr iuc sz accs (ps @ qs) =
     (case acc_frames X classes t thr iuc sz accs ps of
        Inl e \<Rightarrow> Inl e
      | Inr accs' \<Rightarrow> acc_frames X classes t thr iuc sz accs' qs)"
  by (induction ps arbitrary: accs) (auto split: sum.splits)

lemma mismatch_after_label_ids:
  assumes "label_ids_to_int X gs = Inr gs'"
  shows "(\<exists>(g, r) \<in> set (zip gs' rs). frameIndex g \<noteq> frameIndex r) \<longleftrightarrow>
         (\<exists>(g, r) \<in> set (zip gs rs). frameIndex g \<noteq> frameIndex r)"
proof -
  from assms have "gs' = map (\<lambda>fr. fr\<lparr>labels :=
                    map_option (map (\<lambda>l. l\<lparr>label_id := ids_to_int X gs (label_id l)\<rparr>))
                      (labels fr)\<rparr>) gs"
    by (auto simp: label_ids_to_int_def split: if_splits)
  then show ?thesis
    by (auto simp: zip_map1 case_prod_beta)
qed

lemma label_ids_to_int_cases:
  "(gs = [] \<and> label_ids_to_int X gs = Inl (AssertionError None)) \<or>
   (gs \<noteq> [] \<and> (\<exists>gs'. label_ids_to_int X gs = Inr gs'))"
  by (simp add: label_ids_to_int_def)

lemma sort_key_Nil_iff: "sort_key k xs = [] \<longleftrightarrow> xs = []"
  by (metis length_sort list.size(3) length_0_conv)

lemma video_mismatch_fails:
  "frames_mismatch g r \<Longrightarrow> \<exists>e. acc_single_video_mots X g r classes t thr iuc sz = Inl e"
proof (cases "length g \<noteq> length r")
  case True
  then show ?thesis by (simp add: acc_single_video_mots_def)
next
  case False
  assume fm: "frames_mismatch g r"
  show ?thesis
  proof (cases "label_ids_to_int X (sort_key get_frame_index g)")
    case (Inl e)
    with False show ?thesis by (simp add: acc_single_video_mots_def Let_def)
  next
    case (Inr gs')
    from fm False have "\<exists>(g, r) \<in> set (zip gs' (sort_key get_frame_index r)).
        frameIndex g \<noteq> frameIndex r"
      unfolding mismatch_after_label_ids [OF Inr] by (simp add: frames_mismatch_def)
    from acc_frames_mismatch_fails [OF this] False Inr show ?thesis
      by (simp add: acc_single_video_mots_def Let_def)
  qed
qed

lemma video_no_mismatch:
  assumes n: "\<not> frames_mismatch g r" and ne: "g \<noteq> []"
  shows "acc_single_video_mots X g r classes t thr iuc sz \<noteq> Inl ShapeMismatchError"
proof -
  from ne have "sort_key get_frame_index g \<noteq> []" by (simp add: sort_key_Nil_iff)
  with label_ids_to_int_cases [of "sort_key get_frame_index g" X]
  obtain gs' where l: "label_ids_to_int X (sort_key get_frame_index g) = Inr gs'" by blast
  from n have "\<forall>(g, r) \<in> set (zip gs' (sort_key get_frame_index r)).
      frameIndex g = frameIndex r"
    using mismatch_after_label_ids [OF l, of "sort_key get_frame_index r"]
    by (auto simp: frames_mismatch_def)
  from acc_frames_no_mismatch [OF this] n l show ?thesis
    by (simp add: frames_mismatch_def acc_single_video_mots_def Let_def)
qed

lemma collect_Inl_mem: "collect rs = Inl e \<Longrightarrow> Inl e \<in> set rs"
  by (induction rs) (auto split: sum.splits)

lemma collect_first_error:
  "collect rsa = Inr vs \<Longrightarrow> collect (rsa @ Inl e # rsb) = Inl e"
  by (induction rsa arbitrary: vs) (auto split: sum.splits)

lemma collect_fails: "Inl e \<in> set rs \<Longrightarrow> \<exists>e'. collect rs = Inl e'"
  by (induction rs) (auto split: sum.splits)

lemma errors_mem: "e \<in> set [e. Inl e \<leftarrow> rs] \<longleftrightarrow> Inl e \<in> set rs"
  by (induction rs) (auto split: sum.splits)

lemma starmap_Inl_mem: "starmap f rs = Inl e \<Longrightarrow> Inl e \<in> set rs"
proof -
  assume a: "starmap f rs = Inl e"
  let ?es = "[e. Inl e \<leftarrow> rs]"
  from a have ne: "?es \<noteq> []" and e: "e = ?es ! (f ?es mod length ?es)"
    by (auto simp: starmap_def Let_def split: if_splits)
  from ne have "f ?es mod length ?es < length ?es" by simp
  then have "?es ! (f ?es mod length ?es) \<in> set ?es" by (rule nth_mem)
  with e show ?thesis by (simp only: errors_mem)
qed

lemma starmap_fails: "Inl e \<in> set rs \<Longrightarrow> \<exists>e'. starmap f rs = Inl e'"
proof -
  assume "Inl e \<in> set rs"
  then have m: "e \<in> set [e. Inl e \<leftarrow> rs]" by (simp only: errors_mem)
  have "[e. Inl e \<leftarrow> rs] \<noteq> []"
  proof
    assume "[e. Inl e \<leftarrow> rs] = []"
    with m show False by (simp only: list.set empty_iff)
  qed
  then show ?thesis by (simp add: starmap_def Let_def)
qed

text \<open>
  Claim C5, as stated, fails: the checks are made while the videos and frames are
  processed, and a failure met before the misalignment is the one reported. Here an unknown
  category in the first video, or in the first frame, comes before a frame-count mismatch
  of the second video, or a frame-index mismatch of the second frame. And a video without
  frames, on both sides, fails on the assertion of label_ids_to_int although nothing is
  misaligned.
\<close>

theorem shape_validation_counterexample:
  "videos_mismatch
     [[mk_frame 0 [mk_label 7 ''dog'' False (Some [1]) None]], [mk_frame 0 [], mk_frame 1 []]]
     [[mk_frame 0 []], [mk_frame 0 []]] \<and>
   video_accs (\<lambda>es. 0) (acc_single_video_mots (example_ext (\<lambda>d. ([], []))))
     [[mk_frame 0 [mk_label 7 ''dog'' False (Some [1]) None]], [mk_frame 0 [], mk_frame 1 []]]
     [[mk_frame 0 []], [mk_frame 0 []]]
     \<lparr>class_names = [''car''], imageSize = None\<rparr> (1 / 2) (1 / 2) False 1
   = Inl (UnknownCategoryError ''dog'') \<and>
   videos_mismatch
     [[mk_frame 0 [mk_label 7 ''dog'' False (Some [1]) None], mk_frame 1 []]]
     [[mk_frame 0 [], mk_frame 2 []]] \<and>
   video_accs (\<lambda>es. 0) (acc_single_video_mots (example_ext (\<lambda>d. ([], []))))
     [[mk_frame 0 [mk_label 7 ''dog'' False (Some [1]) None], mk_frame 1 []]]
     [[mk_frame 0 [], mk_frame 2 []]]
     \<lparr>class_names = [''car''], imageSize = None\<rparr> (1 / 2) (1 / 2) False 1
   = Inl (UnknownCategoryError ''dog'') \<and>
   UnknownCategoryError ''dog'' \<noteq> ShapeMismatchError \<and>
   \<not> videos_mismatch [[]] [[] :: (nat list, nat list, bool \<times> bool, int) frame list] \<and>
   video_accs (\<lambda>es. 0) (acc_single_video_mots (example_ext (\<lambda>d. ([], [])))) [[]] [[]]
     \<lparr>class_names = [''car''], imageSize = None\<rparr> (1 / 2) (1 / 2) False 1
   = Inl (AssertionError None)"
  by (simp add: shape_simps run_simps)

text \<open>
  Claim C5, amended. Different video counts fail with ShapeMismatchError. A video with
  different frame counts fails with ShapeMismatchError, and so does a video whose frames,
  paired in sorted order, are processed without error up to a pair with different frame
  indices. With one worker the failure of a video is the failure of the evaluation when
  the videos before it are processed without error; with a pool the failure of the
  evaluation is the failure of one of its videos, the first to arrive. Every misaligned
  input fails, and an input without misalignment and without empty video never fails with
  ShapeMismatchError, the AssertionError without message.
\<close>

theorem shape_validation:
  "(length gts \<noteq> length results \<longrightarrow>
      video_accs arrival (acc_single_video_mots X) gts results config iou_thr thr iuc nproc
        = Inl ShapeMismatchError) \<and>
   (length g \<noteq> length r \<longrightarrow>
      acc_single_video_mots X g r classes t thr iuc sz = Inl ShapeMismatchError) \<and>
   (length g = length r \<and>
    label_ids_to_int X (sort_key get_frame_index g) = Inr g' \<and>
    zip g' (sort_key get_frame_index r) = ps @ (fg, fr) # qs \<and>
    acc_frames X classes (case t of Some t' \<Rightarrow> t' | None \<Rightarrow> 1 / 2) thr iuc sz
      (replicate (length classes) []) ps = Inr accs \<and>
    frameIndex fg \<noteq> frameIndex fr \<longrightarrow>
      acc_single_video_mots X g r classes t thr iuc sz = Inl ShapeMismatchError) \<and>
   (nproc \<le> 1 \<and> length gsa = length rsa \<and>
    video_accs arrival (acc_single_video_mots X) gsa rsa config iou_thr thr iuc nproc
      = Inr finished \<and>
    acc_single_video_mots X g r (class_names config) (Some iou_thr) thr iuc (imageSize config)
      = Inl e \<and>
    length gsb = length rsb \<longrightarrow>
      video_accs arrival (acc_single_video_mots X) (gsa @ g # gsb) (rsa @ r # rsb) config
        iou_thr thr iuc nproc = Inl e) \<and>
   (length gts = length results \<and>
    video_accs arrival (acc_single_video_mots X) gts results config iou_thr thr iuc nproc
      = Inl e \<longrightarrow>
      (\<exists>(g, r) \<in> set (zip gts results).
         acc_single_video_mots X g r (class_names config)
           (if nproc > 1 then None else Some iou_thr) thr iuc (imageSize config) = Inl e)) \<and>
   (videos_mismatch gts results \<longrightarrow>
      (\<exists>e. video_accs arrival (acc_single_video_mots X) gts results config iou_thr thr iuc
              nproc = Inl e)) \<and>
   (\<not> videos_mismatch gts results \<and> [] \<notin> set gts \<longrightarrow>
      video_accs arrival (acc_single_video_mots X) gts results config iou_thr thr iuc nproc
        \<noteq> Inl ShapeMismatchError)"
proof -
  define tt where "tt = (if nproc > 1 then None else Some iou_thr)"
  define run where "run = (\<lambda>(gt, result).
      acc_single_video_mots X gt result (class_names config) tt thr iuc (imageSize config))"
  have va: "length gts = length results \<Longrightarrow>
      video_accs arrival (acc_single_video_mots X) gts results config iou_thr thr iuc nproc
        = (if nproc > 1 then starmap arrival (map run (zip gts results))
           else collect (map run (zip gts results)))"
    by (simp add: video_accs_def run_def tt_def)
  have mem: "\<And>e. length gts = length results \<Longrightarrow>
      video_accs arrival (acc_single_video_mots X) gts results config iou_thr thr iuc nproc
        = Inl e \<Longrightarrow>
      \<exists>(g, r) \<in> set (zip gts results).
         acc_single_video_mots X g r (class_names config) tt thr iuc (imageSize config) = Inl e"
  proof -
    fix e assume l: "length gts = length results"
      and f: "video_accs arrival (acc_single_video_mots X) gts results config iou_thr thr iuc
        nproc = Inl e"
    from f have "Inl e \<in> set (map run (zip gts results))"
      unfolding va [OF l] by (auto dest: starmap_Inl_mem collect_Inl_mem split: if_splits)
    then obtain x where x: "x \<in> set (zip gts results)" "run x = Inl e"
      by auto
    obtain g r where "x = (g, r)" by (cases x)
    with x show "\<exists>(g, r) \<in> set (zip gts results).
         acc_single_video_mots X g r (class_names config) tt thr iuc (imageSize config) = Inl e"
      by (auto simp: run_def intro!: bexI [of _ "(g, r)"])
  qed
  have 1: "length gts \<noteq> length results \<longrightarrow>
      video_accs arrival (acc_single_video_mots X) gts results config iou_thr thr iuc nproc
        = Inl ShapeMismatchError"
    by (simp add: video_accs_def)
  have 2: "length g \<noteq> length r \<longrightarrow>
      acc_single_video_mots X g r classes t thr iuc sz = Inl ShapeMismatchError"
    by (simp add: acc_single_video_mots_def)
  have 3: "length g = length r \<and>
    label_ids_to_int X (sort_key get_frame_index g) = Inr g' \<and>
    zip g' (sort_key get_frame_index r) = ps @ (fg, fr) # qs \<and>
    acc_frames X classes (case t of Some t' \<Rightarrow> t' | None \<Rightarrow> 1 / 2) thr iuc sz
      (replicate (length classes) []) ps = Inr accs \<and>
    frameIndex fg \<noteq> frameIndex fr \<longrightarrow>
      acc_single_video_mots X g r classes t thr iuc sz = Inl ShapeMismatchError"
    by (simp add: acc_single_video_mots_def Let_def acc_frames_append acc_frame_def)
  have 4: "nproc \<le> 1 \<and> length gsa = length rsa \<and>
    video_accs arrival (acc_single_video_mots X) gsa rsa config iou_thr thr iuc nproc
      = Inr finished \<and>
    acc_single_video_mots X g r (class_names config) (Some iou_thr) thr iuc (imageSize config)
      = Inl e \<and>
    length gsb = length rsb \<longrightarrow>
      video_accs arrival (acc_single_video_mots X) (gsa @ g # gsb) (rsa @ r # rsb) config
        iou_thr thr iuc nproc = Inl e"
    by (auto simp: video_accs_def collect_first_error)
  have 5: "length gts = length results \<and>
    video_accs arrival (acc_single_video_mots X) gts results config iou_thr thr iuc nproc
      = Inl e \<longrightarrow>
      (\<exists>(g, r) \<in> set (zip gts results).
         acc_single_video_mots X g r (class_names config)
           (if nproc > 1 then None else Some iou_thr) thr iuc (imageSize config) = Inl e)"
    using mem [of e] unfolding tt_def by blast
  have 6: "videos_mismatch gts results \<longrightarrow>
      (\<exists>e. video_accs arrival (acc_single_video_mots X) gts results config iou_thr thr iuc
              nproc = Inl e)"
  proof
    assume m: "videos_mismatch gts results"
    show "\<exists>e. video_accs arrival (acc_single_video_mots X) gts results config iou_thr thr iuc
              nproc = Inl e"
    proof (cases "length gts \<noteq> length results")
      case True
      then show ?thesis by (simp add: video_accs_def)
    next
      case False
      then have l: "length gts = length results" by simp
      from m False obtain g r where gr: "(g, r) \<in> set (zip gts results)" "frames_mismatch g r"
        by (auto simp: videos_mismatch_def)
      from video_mismatch_fails [OF gr(2)] obtain e where
        "acc_single_video_mots X g r (class_names config) tt thr iuc (imageSize config) = Inl e"
        by blast
      with gr(1) have "Inl e \<in> set (map run (zip gts results))"
        by (force simp: run_def)
      then have "(\<exists>e'. starmap arrival (map run (zip gts results)) = Inl e') \<and>
          (\<exists>e'. collect (map run (zip gts results)) = Inl e')"
        by (intro conjI starmap_fails collect_fails)
      then show ?thesis
        unfolding va [OF l] by (cases "nproc > 1") simp_all
    qed
  qed
  have 7: "\<not> videos_mismatch gts results \<and> [] \<notin> set gts \<longrightarrow>
      video_accs arrival (acc_single_video_mots X) gts results config iou_thr thr iuc nproc
        \<noteq> Inl ShapeMismatchError"
  proof (intro impI notI)
    assume n: "\<not> videos_mismatch gts results \<and> [] \<notin> set gts"
      and f: "video_accs arrival (acc_single_video_mots X) gts results config iou_thr thr iuc
        nproc = Inl ShapeMismatchError"
    from n have l: "length gts = length results"
      and ok: "\<forall>(g, r) \<in> set (zip gts results). \<not> frames_mismatch g r"
      by (auto simp: videos_mismatch_def)
    from mem [OF l f] obtain g r where gr: "(g, r) \<in> set (zip gts results)"
      and b: "acc_single_video_mots X g r (class_names config) tt thr iuc (imageSize config)
         = Inl ShapeMismatchError"
      by blast
    from gr have "g \<in> set gts" by (rule set_zip_leftD)
    with n have "g \<noteq> []" by blast
    moreover from ok gr have "\<not> frames_mismatch g r" by blast
    ultimately show False
      using video_no_mismatch [of g r X] b by blast
  qed
  show ?thesis
    by (intro conjI 1 2 3 4 5 6 7)
qed

theorem shape_validation_witness:
  "video_accs (\<lambda>es. 0) (acc_single_video_mots (example_ext (\<lambda>d. ([], []))))
     [[mk_frame 0 []], [mk_frame 0 [], mk_frame 1 []]]
     [[mk_frame 0 []], [mk_frame 0 [], mk_frame 2 []]]
     \<lparr>class_names = [''car''], imageSize = None\<rparr> (1 / 2) (1 / 2) False 1
   = Inl ShapeMismatchError \<and>
   video_accs (\<lambda>es. 0) (acc_single_video_mots (example_ext (\<lambda>d. ([], []))))
     [[mk_frame 0 []]] []
     \<lparr>class_names = [''car''], imageSize = None\<rparr> (1 / 2) (1 / 2) False 1
   = Inl ShapeMismatchError \<and>
   acc_single_video_mots (example_ext (\<lambda>d. ([], [])))
     [mk_frame 0 []] [] [''car''] (Some (1 / 2)) (1 / 2) False None
   = Inl ShapeMismatchError \<and>
   video_accs (\<lambda>es. 0) (acc_single_video_mots (example_ext (\<lambda>d. ([], []))))
     [[mk_frame 1 [], mk_frame 0 []]] [[mk_frame 0 [], mk_frame 1 []]]
     \<lparr>class_names = [''car''], imageSize = None\<rparr> (1 / 2) (1 / 2) False 1
   \<noteq> Inl ShapeMismatchError \<and>
   (\<exists>e. video_accs (\<lambda>es. 1) (acc_single_video_mots (example_ext (\<lambda>d. ([], []))))
     [[mk_frame 0 [mk_label 7 ''dog'' False (Some [1]) None]], [mk_frame 0 [], mk_frame 1 []]]
     [[mk_frame 0 []], [mk_frame 0 []]]
     \<lparr>class_names = [''car''], imageSize = None\<rparr> (1 / 2) (1 / 2) False 2 = Inl e) \<and>
   (\<exists>(g, r) \<in> set (zip
        [[mk_frame 0 [mk_label 7 ''dog'' False (Some [1]) None]], [mk_frame 0 [], mk_frame 1 []]]
        [[mk_frame 0 []], [mk_frame 0 []]]).
      acc_single_video_mots (example_ext (\<lambda>d. ([], []))) g r [''car''] None (1 / 2) False None
        = Inl ShapeMismatchError)"
proof -
  let ?X = "example_ext (\<lambda>d. ([], []))"
  let ?c = "\<lparr>class_names = [''car''], imageSize = (None :: nat option)\<rparr>"
  let ?g = "[mk_frame 0 [], mk_frame 1 []]"
  let ?r = "[mk_frame 0 [], mk_frame 2 []]"
  let ?gd = "[[mk_frame 0 [mk_label 7 ''dog'' False (Some [1]) None]], [mk_frame 0 [], mk_frame 1 []]]"
  let ?rd = "[[mk_frame 0 []], [mk_frame 0 [] :: (nat list, nat list, bool \<times> bool, int) frame]]"
  have v1: "length [[mk_frame 0 []]]
      \<noteq> length ([] :: (nat list, nat list, bool \<times> bool, int) frame list list)"
    by simp
  have a: "video_accs (\<lambda>es. 0) (acc_single_video_mots ?X) [[mk_frame 0 []]] [] ?c
      (1 / 2) (1 / 2) False 1 = Inl ShapeMismatchError"
    using shape_validation [where gts = "[[mk_frame 0 []]]" and results = "[]" and X = ?X
        and config = ?c and iou_thr = "1 / 2" and thr = "1 / 2" and iuc = False and nproc = 1
        and arrival = "\<lambda>es. 0", THEN conjunct1] v1 by blast
  have v2: "length [mk_frame 0 []]
      \<noteq> length ([] :: (nat list, nat list, bool \<times> bool, int) frame list)"
    by simp
  have b: "acc_single_video_mots ?X [mk_frame 0 []] [] [''car''] (Some (1 / 2)) (1 / 2) False None
      = Inl ShapeMismatchError"
    using shape_validation [where g = "[mk_frame 0 []]" and r = "[]" and X = ?X
        and classes = "[''car'']" and t = "Some (1 / 2)" and thr = "1 / 2" and iuc = False
        and sz = None, THEN conjunct2, THEN conjunct1] v2 by blast
  have v3: "length ?g = length ?r \<and>
    label_ids_to_int ?X (sort_key get_frame_index ?g) = Inr ?g \<and>
    zip ?g (sort_key get_frame_index ?r)
      = [(mk_frame 0 [], mk_frame 0 [])] @ (mk_frame 1 [], mk_frame 2 []) # [] \<and>
    acc_frames ?X [''car''] (case Some (1 / 2) of Some t' \<Rightarrow> t' | None \<Rightarrow> 1 / 2) (1 / 2) False None
      (replicate (length [''car'']) []) [(mk_frame 0 [], mk_frame 0 [])] = Inr [[]] \<and>
    frameIndex (mk_frame 1 [] :: (nat list, nat list, bool \<times> bool, int) frame)
      \<noteq> frameIndex (mk_frame 2 [] :: (nat list, nat list, bool \<times> bool, int) frame)"
    by (simp add: run_simps)
  have c: "acc_single_video_mots ?X ?g ?r [''car''] (Some (1 / 2)) (1 / 2) False None
      = Inl ShapeMismatchError"
    using shape_validation [where g = ?g and r = ?r and X = ?X and g' = ?g
        and classes = "[''car'']" and t = "Some (1 / 2)" and thr = "1 / 2" and iuc = False
        and sz = None and ps = "[(mk_frame 0 [], mk_frame 0 [])]" and fg = "mk_frame 1 []"
        and fr = "mk_frame 2 []" and qs = "[]" and accs = "[[]]",
        THEN conjunct2, THEN conjunct2, THEN conjunct1] v3 by blast
  have v4: "(1::nat) \<le> 1 \<and> length [[mk_frame 0 []]] = length [[mk_frame 0 []]] \<and>
    video_accs (\<lambda>es. 0) (acc_single_video_mots ?X) [[mk_frame 0 []]] [[mk_frame 0 []]] ?c
      (1 / 2) (1 / 2) False 1 = Inr [[[]]] \<and>
    acc_single_video_mots ?X ?g ?r (class_names ?c) (Some (1 / 2)) (1 / 2) False (imageSize ?c)
      = Inl ShapeMismatchError \<and>
    length ([] :: (nat list, nat list, bool \<times> bool, int) frame list list)
      = length ([] :: (nat list, nat list, bool \<times> bool, int) frame list list)"
    using c by (simp add: run_simps)
  have d: "video_accs (\<lambda>es. 0) (acc_single_video_mots ?X) ([[mk_frame 0 []]] @ ?g # [])
        ([[mk_frame 0 []]] @ ?r # []) ?c (1 / 2) (1 / 2) False 1 = Inl ShapeMismatchError"
    using shape_validation [where X = ?X and gsa = "[[mk_frame 0 []]]"
        and rsa = "[[mk_frame 0 []]]" and config = ?c and iou_thr = "1 / 2" and thr = "1 / 2"
        and iuc = False and nproc = 1 and finished = "[[[]]]" and g = ?g and r = ?r
        and e = ShapeMismatchError and gsb = "[]" and rsb = "[]" and arrival = "\<lambda>es. 0",
        THEN conjunct2, THEN conjunct2, THEN conjunct2, THEN conjunct1] v4 by blast
  have v6: "\<not> videos_mismatch [[mk_frame 1 [], mk_frame 0 []]]
      [[mk_frame 0 [], mk_frame 1 [] :: (nat list, nat list, bool \<times> bool, int) frame]] \<and>
      [] \<notin> set [[mk_frame 1 [], mk_frame 0 [] :: (nat list, nat list, bool \<times> bool, int) frame]]"
    by (simp add: shape_simps get_frame_index_def mk_frame_def)
  have f: "video_accs (\<lambda>es. 0) (acc_single_video_mots ?X)
     [[mk_frame 1 [], mk_frame 0 []]] [[mk_frame 0 [], mk_frame 1 []]] ?c (1 / 2) (1 / 2) False 1
   \<noteq> Inl ShapeMismatchError"
    using shape_validation [where X = ?X and gts = "[[mk_frame 1 [], mk_frame 0 []]]"
        and results = "[[mk_frame 0 [], mk_frame 1 []]]" and config = ?c and iou_thr = "1 / 2"
        and thr = "1 / 2" and iuc = False and nproc = 1 and arrival = "\<lambda>es. 0",
        THEN conjunct2, THEN conjunct2, THEN conjunct2, THEN conjunct2, THEN conjunct2,
        THEN conjunct2] v6
    by blast
  have v7: "videos_mismatch ?gd ?rd"
    by (simp add: shape_simps)
  have p: "\<exists>e. video_accs (\<lambda>es. 1) (acc_single_video_mots ?X) ?gd ?rd ?c
      (1 / 2) (1 / 2) False 2 = Inl e"
    using shape_validation [where X = ?X and gts = ?gd and results = ?rd and config = ?c
        and iou_thr = "1 / 2" and thr = "1 / 2" and iuc = False and nproc = 2
        and arrival = "\<lambda>es. 1",
        THEN conjunct2, THEN conjunct2, THEN conjunct2, THEN conjunct2, THEN conjunct2,
        THEN conjunct1] v7
    by blast
  have v8: "length ?gd = length ?rd \<and>
      video_accs (\<lambda>es. 1) (acc_single_video_mots ?X) ?gd ?rd ?c (1 / 2) (1 / 2) False 2
        = Inl ShapeMismatchError"
    by (simp add: run_simps starmap_def)
  have q: "\<exists>(g, r) \<in> set (zip ?gd ?rd).
      acc_single_video_mots ?X g r [''car''] None (1 / 2) False None = Inl ShapeMismatchError"
    using shape_validation [where X = ?X and gts = ?gd and results = ?rd and config = ?c
        and iou_thr = "1 / 2" and thr = "1 / 2" and iuc = False and nproc = 2
        and arrival = "\<lambda>es. 1" and e = ShapeMismatchError,
        THEN conjunct2, THEN conjunct2, THEN conjunct2, THEN conjunct2, THEN conjunct1,
        THEN mp, OF v8]
    by simp
  from a b d f p q show ?thesis by simp
qed

subsection \<open>The worker count\<close>

text \<open>
  With more than one worker the threshold given to the evaluation is not handed to the
  function that processes a video, which then runs with its default 0.5: the result does
  not depend on the threshold.
\<close>

lemma pool_ignores_iou_thr:
  "1 < nproc \<Longrightarrow>
   video_accs arrival (acc_single_video_mots X) gts results config iou_thr ignore_iof_thr
     iuc nproc =
   video_accs arrival (acc_single_video_mots X) gts results config iou_thr' ignore_iof_thr
     iuc nproc"
  by (simp add: video_accs_def)

text \<open>
  Claim C1 fails on the code. One ground truth and one prediction of IoU 0.4, with the
  threshold 0.3: one worker passes the pair on at distance 0.6, two workers pass it on as
  unmatchable, and the results of the evaluation differ, whatever the order in which the
  tasks of the pool end.
\<close>

theorem pool_drops_iou_thr:
  "video_accs arrival (acc_single_video_mots (example_ext (\<lambda>d. ([0], [0]))))
     [[mk_frame 0 [mk_label 1 ''car'' False (Some [1, 2, 3, 4]) None]]]
     [[mk_frame 0 [mk_label 101 ''car'' False (Some [1, 2, 5]) None]]]
     \<lparr>class_names = [''car''], imageSize = None\<rparr> (3 / 10) (1 / 2) False 1
   = Inr [[[([1], [101], \<lparr>nrows = 1, ncols = 1, ents = [[Some (3 / 5)]]\<rparr>)]]] \<and>
   video_accs arrival (acc_single_video_mots (example_ext (\<lambda>d. ([0], [0]))))
     [[mk_frame 0 [mk_label 1 ''car'' False (Some [1, 2, 3, 4]) None]]]
     [[mk_frame 0 [mk_label 101 ''car'' False (Some [1, 2, 5]) None]]]
     \<lparr>class_names = [''car''], imageSize = None\<rparr> (3 / 10) (1 / 2) False 2
   = Inr [[[([1], [101], \<lparr>nrows = 1, ncols = 1, ents = [[None]]\<rparr>)]]] \<and>
   evaluate_seg_track (\<lambda>accs. accs) arrival
     (acc_single_video_mots (example_ext (\<lambda>d. ([0], [0]))))
     [[mk_frame 0 [mk_label 1 ''car'' False (Some [1, 2, 3, 4]) None]]]
     [[mk_frame 0 [mk_label 101 ''car'' False (Some [1, 2, 5]) None]]]
     \<lparr>class_names = [''car''], imageSize = None\<rparr> (3 / 10) (1 / 2) False 1
   \<noteq> evaluate_seg_track (\<lambda>accs. accs) arrival
     (acc_single_video_mots (example_ext (\<lambda>d. ([0], [0]))))
     [[mk_frame 0 [mk_label 1 ''car'' False (Some [1, 2, 3, 4]) None]]]
     [[mk_frame 0 [mk_label 101 ''car'' False (Some [1, 2, 5]) None]]]
     \<lparr>class_names = [''car''], imageSize = None\<rparr> (3 / 10) (1 / 2) False 2"
  by (simp add: run_simps evaluate_seg_track_def starmap_def)

end
